theory Spec2Isabelle
  imports Complex_Main "HOL-Library.Sublist"
begin

section \<open>Conventions of the embedding\<close>

text \<open>
  The numeric type of the program (\<^verbatim>\<open>float\<close> for the simulation parameters and the
  element arrays, \<^verbatim>\<open>double\<close> for the clock and the body kinematics) is the type
  variable \<open>'r\<close>. Only the syntax of the arithmetic operations is required of it, no
  algebraic law, so no theorem below rests on exact arithmetic. Every conversion in the
  modelled code widens \<^verbatim>\<open>float\<close> to \<^verbatim>\<open>double\<close> and is written as the identity.
  Numeric literals other than \<^verbatim>\<open>0.0\<close> and \<^verbatim>\<open>1.0\<close> and the functions of
  \<^verbatim>\<open><cmath>\<close> and \<^verbatim>\<open><limits>\<close> come from the record \<open>cmath\<close>.
  \<^verbatim>\<open>size_t\<close> values are sizes of vectors held in memory and are natural numbers.
\<close>

record 'r cmath =
  std_sqrt :: "'r \<Rightarrow> 'r"         \<comment> \<open>\<^verbatim>\<open>std::sqrt\<close>\<close>
  float_epsilon :: 'r            \<comment> \<open>\<^verbatim>\<open>std::numeric_limits<float>::epsilon()\<close>\<close>
  lit_1em5 :: 'r                 \<comment> \<open>the literal \<^verbatim>\<open>1.e-5\<close>\<close>
  lit_2 :: 'r                    \<comment> \<open>the literal \<^verbatim>\<open>2.0\<close>\<close>
  lit_100 :: 'r                  \<comment> \<open>the literal \<^verbatim>\<open>100.0\<close>\<close>
  lit_0p01 :: 'r                 \<comment> \<open>the literal \<^verbatim>\<open>0.01\<close>\<close>

text \<open>
  A call either returns a value and the state it leaves, or leaves by a C++ exception
  (the state survives), or ends the process: a failed \<^verbatim>\<open>assert\<close>, or undefined
  behaviour (a read past the end of a vector, a null pointer dereferenced, the result
  of a future without shared state taken, two
  background steps running on the same object).
\<close>

datatype exn = Exception string

datatype fatal =
  AssertionFailure | OutOfRangeRead | NullDereference | ConcurrentSteps | InvalidFuture

datatype ('a, 's) result = Returns 'a 's | Throws exn 's | Fatal fatal

text \<open>\<^verbatim>\<open>Dimensions\<close> (Omega2D.h): the solver is two-dimensional; \<^verbatim>\<open>Body\<close> builds its
  \<^verbatim>\<open>Vec\<close> from two coordinates.\<close>

definition Dimensions :: nat where
  "Dimensions = 2"

text \<open>\<^verbatim>\<open>std::array<T,Dimensions>\<close>: two components, read and written by index. Every
  index used on one is below \<^verbatim>\<open>Dimensions\<close> (a loop bound or an \<^verbatim>\<open>assert\<close>).\<close>

type_synonym 'a Vec = "'a \<times> 'a"

definition vec_at :: "'a Vec \<Rightarrow> nat \<Rightarrow> 'a" where
  "vec_at v i = (if i = 0 then fst v else snd v)"

definition vec_set :: "'a Vec \<Rightarrow> nat \<Rightarrow> 'a \<Rightarrow> 'a Vec" where
  "vec_set v i a = (if i = 0 then (a, snd v) else (fst v, a))"

section \<open>Body.cpp\<close>

text \<open>
  A compiled expression (\<^verbatim>\<open>te_expr*\<close>) is the function of the bound variable \<^verbatim>\<open>t\<close> it
  evaluates; \<^verbatim>\<open>te_eval\<close> applies it to the current \<^verbatim>\<open>this_time\<close>, to which \<^verbatim>\<open>t\<close> is
  bound by address. A null pointer is \<open>None\<close>. \<^verbatim>\<open>pos_func\<close> is resized to
  \<^verbatim>\<open>Dimensions\<close> by the only constructor and never resized again.
\<close>

record 'r Body =
  name :: string
  parent :: string
  this_time :: 'r
  pos :: "'r Vec"
  vel :: "'r Vec"
  apos :: 'r
  avel :: 'r
  pos_func :: "('r \<Rightarrow> 'r) option Vec"
  pos_expr :: "string Vec"

text \<open>What \<^verbatim>\<open>set_pos\<close> writes to \<^verbatim>\<open>std::cout\<close>:
  \<^verbatim>\<open>"  testing parsed expression, with t=0, value is " << v\<close> and
  \<^verbatim>\<open>"  Error parsing expression (" << val << "), near character " << ierr\<close>.\<close>

datatype 'r cout_line =
    TestingParsedExpression 'r
  | ErrorParsingExpression string int

definition Body_ctor :: "'r::zero \<Rightarrow> 'r \<Rightarrow> 'r Body" where
  "Body_ctor x0 y0 =
     \<lparr> name = [], parent = [], this_time = 0, pos = (x0, y0), vel = (0, 0),
       apos = 0, avel = 0, pos_func = (None, None), pos_expr = ([], []) \<rparr>"

definition Body_default :: "('r::zero) Body" where
  "Body_default = Body_ctor 0 0"

definition set_name :: "string \<Rightarrow> 'r Body \<Rightarrow> 'r Body" where
  "set_name nm b = b\<lparr>name := nm\<rparr>"

definition set_parent_name :: "string \<Rightarrow> 'r Body \<Rightarrow> 'r Body" where
  "set_parent_name nm b = b\<lparr>parent := nm\<rparr>"

definition get_name :: "'r Body \<Rightarrow> string" where
  "get_name b = name b"

definition set_pos :: "nat \<Rightarrow> 'r \<Rightarrow> 'r Body \<Rightarrow> (unit, 'r Body) result" where
  "set_pos i val b =
     (if \<not> i < Dimensions then Fatal AssertionFailure
      else Returns () (b\<lparr>pos := vec_set (pos b) i val\<rparr>))"

text \<open>\<^verbatim>\<open>te_compile\<close> (tinyexpr) is a parameter: it returns the compiled expression or
  null, and the error offset \<^verbatim>\<open>ierr\<close>.\<close>

definition set_pos_expr ::
  "(string \<Rightarrow> ('r \<Rightarrow> 'r) option \<times> int) \<Rightarrow> nat \<Rightarrow> string \<Rightarrow> 'r Body
     \<Rightarrow> ('r cout_line list, 'r Body) result" where
  "set_pos_expr te_compile i val b =
     (if \<not> i < Dimensions then Fatal AssertionFailure
      else
        let b1 = b\<lparr>pos_expr := vec_set (pos_expr b) i val\<rparr>;
            (f, ierr) = te_compile val;
            b2 = b1\<lparr>pos_func := vec_set (pos_func b1) i f\<rparr>
        in case vec_at (pos_func b2) i of
             Some g \<Rightarrow> Returns [TestingParsedExpression (g (this_time b2))] b2
           | None \<Rightarrow> Returns [ErrorParsingExpression val ierr] b2)"

definition get_pos_body :: "nat \<Rightarrow> 'r Body \<Rightarrow> 'r Body" where
  "get_pos_body i b =
     (case vec_at (pos_func b) i of
        Some g \<Rightarrow> b\<lparr>pos := vec_set (pos b) i (g (this_time b))\<rparr>
      | None \<Rightarrow> b)"

definition get_pos :: "'r \<Rightarrow> 'r Body \<Rightarrow> 'r Vec \<times> 'r Body" where
  "get_pos t b =
     (let b1 = b\<lparr>this_time := t\<rparr>;
          b2 = fold get_pos_body [0..<Dimensions] b1
      in (pos b2, b2))"

definition get_vel_body ::
  "'r cmath \<Rightarrow> 'r::{plus,minus,times,divide} \<Rightarrow> nat \<Rightarrow> 'r Body \<Rightarrow> 'r Body" where
  "get_vel_body F t i b =
     (let dt = lit_1em5 F in
      case vec_at (pos_func b) i of
        Some g \<Rightarrow>
          let b1 = b\<lparr>this_time := t + dt\<rparr>;
              pplus = g (this_time b1);
              b2 = b1\<lparr>this_time := t - dt\<rparr>;
              pminus = g (this_time b2)
          in b2\<lparr>vel := vec_set (vel b2) i (divide (pplus - pminus) (lit_2 F * dt))\<rparr>
      | None \<Rightarrow> b)"

definition get_vel ::
  "'r cmath \<Rightarrow> 'r::{plus,minus,times,divide} \<Rightarrow> 'r Body \<Rightarrow> 'r Vec \<times> 'r Body" where
  "get_vel F t b =
     (let b1 = fold (get_vel_body F t) [0..<Dimensions] b
      in (vel b1, b1))"

definition get_orient :: "'r \<Rightarrow> 'r Body \<Rightarrow> 'r" where
  "get_orient t b = apos b"

definition get_rotvel :: "'r \<Rightarrow> 'r Body \<Rightarrow> 'r" where
  "get_rotvel t b = avel b"

text \<open>The bodies whose coordinates were only ever set to constants: built by the
  constructor, then changed by \<^verbatim>\<open>set_pos(i, double)\<close>, the name setters and the
  getters, in any order.\<close>

inductive constant_body :: "'r cmath \<Rightarrow> ('r::{zero,plus,minus,times,divide}) Body \<Rightarrow> bool"
  for F :: "'r cmath" where
  cb_ctor: "constant_body F (Body_ctor x0 y0)"
| cb_set_pos: "constant_body F b \<Longrightarrow> set_pos i v b = Returns () b' \<Longrightarrow> constant_body F b'"
| cb_set_name: "constant_body F b \<Longrightarrow> constant_body F (set_name nm b)"
| cb_set_parent: "constant_body F b \<Longrightarrow> constant_body F (set_parent_name nm b)"
| cb_get_pos: "constant_body F b \<Longrightarrow> constant_body F (snd (get_pos t b))"
| cb_get_vel: "constant_body F b \<Longrightarrow> constant_body F (snd (get_vel F t b))"

section \<open>Element collections (Points.h, and the declarations it rests on)\<close>

datatype elem_t = active | reactive | inert

datatype move_t = lagrangian | bodybound | fixed

text \<open>\<^verbatim>\<open>std::shared_ptr<Body>\<close>: \<open>None\<close> is the null pointer, \<open>Some a\<close> the address of a
  body in the store of bodies; two pointers are equal when they are both null or hold the
  same address.\<close>

type_synonym body_ptr = "nat option"

text \<open>Modelled from the spec: ElementBase.h is absent. The base class holds the element
  count, the element kind, the motion kind, the body reference and the arrays that
  Points.h reads and writes through \<^verbatim>\<open>this\<close> (\<^verbatim>\<open>n\<close>, \<^verbatim>\<open>E\<close>, \<^verbatim>\<open>M\<close>, \<^verbatim>\<open>x\<close>, \<^verbatim>\<open>r\<close>,
  \<^verbatim>\<open>s\<close>, \<^verbatim>\<open>u\<close>); its getters return the stored values.\<close>

record 'r ElementBase =
  elem_n :: nat
  elem_E :: elem_t
  elem_M :: move_t
  elem_B :: body_ptr
  elem_x :: "'r list Vec"
  elem_r :: "'r list"
  elem_s :: "'r list list option"
  elem_u :: "'r list Vec"

record 'r Points = "'r ElementBase" +
  max_strength :: 'r

text \<open>The geometry packet (ElementPacket.h is absent): the three arrays that
  BoundaryFeature.cpp fills and \<^verbatim>\<open>add_boundary\<close> passes on.\<close>

record 'r ElementPacket =
  pkt_x :: "'r list"
  pkt_idx :: "nat list"
  pkt_val :: "'r list"

record 'r Surfaces = "'r ElementBase" +
  surf_idx :: "nat list"
  surf_val :: "'r list"
  surf_np :: nat

datatype 'r Collection = CPoints "'r Points" | CSurfaces "'r Surfaces"

definition vec_init :: "(nat \<Rightarrow> 'a) \<Rightarrow> 'a Vec" where
  "vec_init f = (f 0, f 1)"

text \<open>The constructor of Points.h. Simulation.cpp passes a fourth argument, the body
  pointer, always \<^verbatim>\<open>nullptr\<close>; the constructor has no such parameter and the collection
  carries no body. \<^verbatim>\<open>std::vector::operator[]\<close> does not check its index: a read at or
  past the end is undefined behaviour.\<close>

definition Points_ctor ::
  "('r::{zero,one,uminus}) list \<Rightarrow> elem_t \<Rightarrow> move_t \<Rightarrow> ('r Points, unit) result" where
  "Points_ctor invec e m =
     (let n = length invec div 4 in
      if \<not> length invec mod 7 = 0 then Fatal AssertionFailure
      else
        let x = vec_init (\<lambda>d. map (\<lambda>i. invec ! (4 * i + d)) [0..<n]);
            r = map (\<lambda>i. invec ! (4 * i + 3)) [0..<n];
            u = vec_init (\<lambda>d. replicate n 0)
        in if e \<noteq> inert then
             (if list_all (\<lambda>d. list_all (\<lambda>i. 7 * i + d + 3 < length invec) [0..<n]) [0..<3]
              then
                let new_s = map (\<lambda>d. map (\<lambda>i. invec ! (7 * i + d + 3)) [0..<n]) [0..<3]
                in Returns \<lparr> elem_n = n, elem_E = e, elem_M = m, elem_B = None, elem_x = x,
                             elem_r = r, elem_s = Some new_s, elem_u = u,
                             max_strength = - 1 \<rparr> ()
              else Fatal OutOfRangeRead)
           else Returns \<lparr> elem_n = n, elem_E = e, elem_M = m, elem_B = None, elem_x = x,
                          elem_r = r, elem_s = None, elem_u = u, max_strength = - 1 \<rparr> ())"

text \<open>\<^verbatim>\<open>Points::add_new\<close> hands the vector to \<^verbatim>\<open>ElementBase<S>::add_new\<close>, which is
  absent and is a parameter.\<close>

definition Points_add_new ::
  "('r list \<Rightarrow> 'r Points \<Rightarrow> (unit, 'r Points) result) \<Rightarrow> 'r list \<Rightarrow> 'r Points
     \<Rightarrow> (unit, 'r Points) result" where
  "Points_add_new base_add_new invec p = base_add_new invec p"

text \<open>Modelled from the spec: Surfaces.h is absent. A panel set keeps the node
  coordinates, the connectivity (index pairs) and the per-panel values of the packets
  it received; the number of panels of a packet is its number of index pairs;
  \<^verbatim>\<open>add_new\<close> appends a packet, its indices shifted by the nodes already held, and
  the panel count grows by the packet's.\<close>

definition packet_npanels :: "'r ElementPacket \<Rightarrow> nat" where
  "packet_npanels g = length (pkt_idx g) div 2"

definition Surfaces_ctor ::
  "'r list \<Rightarrow> nat list \<Rightarrow> 'r list \<Rightarrow> elem_t \<Rightarrow> move_t \<Rightarrow> body_ptr \<Rightarrow> 'r Surfaces" where
  "Surfaces_ctor x idx val e m bp =
     (let n = length x div 2 in
      \<lparr> elem_n = n, elem_E = e, elem_M = m, elem_B = bp,
        elem_x = vec_init (\<lambda>d. map (\<lambda>i. x ! (2 * i + d)) [0..<n]),
        elem_r = [], elem_s = None, elem_u = vec_init (\<lambda>d. []),
        surf_idx = idx, surf_val = val, surf_np = length idx div 2 \<rparr>)"

definition Surfaces_add_new ::
  "'r list \<Rightarrow> nat list \<Rightarrow> 'r list \<Rightarrow> 'r Surfaces \<Rightarrow> 'r Surfaces" where
  "Surfaces_add_new x idx val surf =
     (let nold = elem_n surf; nnew = length x div 2 in
      surf\<lparr> elem_n := nold + nnew,
            elem_x := vec_init (\<lambda>d. vec_at (elem_x surf) d @ map (\<lambda>i. x ! (2 * i + d)) [0..<nnew]),
            surf_idx := surf_idx surf @ map (\<lambda>k. k + nold) idx,
            surf_val := surf_val surf @ val,
            surf_np := surf_np surf + length idx div 2 \<rparr>)"

definition Surfaces_get_npanels :: "'r Surfaces \<Rightarrow> nat" where
  "Surfaces_get_npanels surf = surf_np surf"

text \<open>The visitors of Simulation.cpp (\<^verbatim>\<open>std::visit\<close> over the two alternatives).\<close>

definition get_elemt :: "'r Collection \<Rightarrow> elem_t" where
  "get_elemt coll = (case coll of CPoints elem \<Rightarrow> elem_E elem | CSurfaces elem \<Rightarrow> elem_E elem)"

definition get_movet :: "'r Collection \<Rightarrow> move_t" where
  "get_movet coll = (case coll of CPoints elem \<Rightarrow> elem_M elem | CSurfaces elem \<Rightarrow> elem_M elem)"

definition get_body_ptr :: "'r Collection \<Rightarrow> body_ptr" where
  "get_body_ptr coll = (case coll of CPoints elem \<Rightarrow> elem_B elem | CSurfaces elem \<Rightarrow> elem_B elem)"

definition get_n :: "'r Collection \<Rightarrow> nat" where
  "get_n coll = (case coll of CPoints elem \<Rightarrow> elem_n elem | CSurfaces elem \<Rightarrow> elem_n elem)"

section \<open>Simulation.h and Simulation.cpp\<close>

text \<open>Modelled from the spec: Diffusion.h is absent. Simulation reads three values from
  its diffusion object (whether diffusion is on, the scaled nominal separation, the
  particle overlap) and switches the first.\<close>

record 'r Diffusion =
  diffuse :: bool
  nom_sep_scaled :: 'r
  particle_overlap :: 'r

definition get_diffuse :: "'r Diffusion \<Rightarrow> bool" where
  "get_diffuse d = diffuse d"

definition get_nom_sep_scaled :: "'r Diffusion \<Rightarrow> 'r" where
  "get_nom_sep_scaled d = nom_sep_scaled d"

definition get_particle_overlap :: "'r Diffusion \<Rightarrow> 'r" where
  "get_particle_overlap d = particle_overlap d"

text \<open>\<^verbatim>\<open>std::future<void>\<close> as the foreground thread sees it: no shared state
  (\<^verbatim>\<open>valid()\<close> is false), a task still running, or a task that has finished and left
  its result, which is nothing or the exception it ended with. The background thread is
  not interleaved with the foreground: the whole of its \<^verbatim>\<open>step()\<close> takes effect at the
  moment it finishes (\<open>worker_finishes\<close> below), which is what the foreground may rely
  on, since it may not touch the collections while a step is outstanding.\<close>

datatype future = NoState | Running | Ready "exn option"

text \<open>The \<^verbatim>\<open>Simulation\<close> object, with the store of \<^verbatim>\<open>Body\<close> objects that its shared
  pointers point into (a body's address is its index; nothing is ever freed while a
  pointer to it is held). \<^verbatim>\<open>bem\<close> and \<^verbatim>\<open>conv\<close> (BEM.h, Convection.h: absent) are opaque.\<close>

record ('r, 'b, 'c) Simulation =
  re :: 'r
  dt :: 'r
  fs :: "'r Vec"
  bodies :: "body_ptr list"
  vort :: "'r Collection list"
  bdry :: "'r Collection list"
  fldpt :: "'r Collection list"
  bem :: 'b
  diff :: "'r Diffusion"
  conv :: 'c
  description :: string
  time :: 'r
  output_dt :: 'r
  end_time :: 'r
  use_end_time :: bool
  max_steps :: nat
  use_max_steps :: bool
  sim_is_initialized :: bool
  step_has_started :: bool
  step_is_finished :: bool
  stepfuture :: future
  body_store :: "'r Body list"

text \<open>The code of this repository that Simulation.cpp calls and that is not among the
  sources: the diffusion pass, the second-order convection pass and the reset of the
  boundary-element solver. Each pass gets its scalar arguments by value and may change
  only what it is a member of or is handed by reference (and the bodies its collections
  point to); it may throw.\<close>

record ('r, 'b, 'c) kernels =
  diff_step ::
    "'r \<Rightarrow> 'r \<Rightarrow> 'r \<Rightarrow> 'r \<Rightarrow> 'r Vec
       \<Rightarrow> 'r Diffusion \<times> 'r Collection list \<times> 'r Collection list \<times> 'b \<times> 'r Body list
       \<Rightarrow> (unit, 'r Diffusion \<times> 'r Collection list \<times> 'r Collection list \<times> 'b \<times> 'r Body list) result"
  advect_2nd ::
    "'r \<Rightarrow> 'r \<Rightarrow> 'r Vec
       \<Rightarrow> 'c \<times> 'r Collection list \<times> 'r Collection list \<times> 'r Collection list \<times> 'b \<times> 'r Body list
       \<Rightarrow> (unit, 'c \<times> 'r Collection list \<times> 'r Collection list \<times> 'r Collection list \<times> 'b \<times> 'r Body list) result"
  bem_reset :: "'b \<Rightarrow> 'b"

definition get_hnu :: "'r cmath \<Rightarrow> ('r::divide, 'b, 'c) Simulation \<Rightarrow> 'r" where
  "get_hnu F sim = std_sqrt F (divide (dt sim) (re sim))"

definition get_ips :: "'r cmath \<Rightarrow> ('r::{divide,times}, 'b, 'c) Simulation \<Rightarrow> 'r" where
  "get_ips F sim = get_nom_sep_scaled (diff sim) * get_hnu F sim"

definition get_vdelta :: "'r cmath \<Rightarrow> ('r::{divide,times}, 'b, 'c) Simulation \<Rightarrow> 'r" where
  "get_vdelta F sim = get_particle_overlap (diff sim) * get_ips F sim"

definition get_npanels :: "('r, 'b, 'c) Simulation \<Rightarrow> nat" where
  "get_npanels sim =
     fold (\<lambda>coll n. case coll of CSurfaces surf \<Rightarrow> n + Surfaces_get_npanels surf | CPoints _ \<Rightarrow> n)
          (bdry sim) 0"

definition get_nparts :: "('r, 'b, 'c) Simulation \<Rightarrow> nat" where
  "get_nparts sim = fold (\<lambda>coll n. n + get_n coll) (vort sim) 0"

definition get_nfldpts :: "('r, 'b, 'c) Simulation \<Rightarrow> nat" where
  "get_nfldpts sim = fold (\<lambda>coll n. n + get_n coll) (fldpt sim) 0"

definition set_diffuse :: "bool \<Rightarrow> ('r, 'b, 'c) Simulation \<Rightarrow> ('r, 'b, 'c) Simulation" where
  "set_diffuse do_diffuse sim = sim\<lparr>diff := (diff sim)\<lparr>diffuse := do_diffuse\<rparr>\<rparr>"

subsection \<open>reset, and the asynchronous step\<close>

definition future_valid :: "future \<Rightarrow> bool" where
  "future_valid f = (f \<noteq> NoState)"

definition is_future_ready :: "future \<Rightarrow> bool" where
  "is_future_ready f =
     (if \<not> future_valid f then False
      else (case f of Ready _ \<Rightarrow> True | _ \<Rightarrow> False))"

definition step ::
  "('r, 'b, 'c) kernels \<Rightarrow> 'r cmath \<Rightarrow> ('r::{plus,times,divide}, 'b, 'c) Simulation
     \<Rightarrow> (unit, ('r, 'b, 'c) Simulation) result" where
  "step K F sim =
     (let thisfs = (vec_at (fs sim) 0, vec_at (fs sim) 1) in
      case diff_step K (time sim) (dt sim) (re sim) (get_vdelta F sim) thisfs
             (diff sim, vort sim, bdry sim, bem sim, body_store sim) of
        Fatal f \<Rightarrow> Fatal f
      | Throws e (d, v, b, m, h) \<Rightarrow>
          Throws e (sim\<lparr>diff := d, vort := v, bdry := b, bem := m, body_store := h\<rparr>)
      | Returns _ (d, v, b, m, h) \<Rightarrow>
          let sim1 = sim\<lparr>diff := d, vort := v, bdry := b, bem := m, body_store := h\<rparr> in
          (case advect_2nd K (time sim1) (dt sim1) thisfs
                  (conv sim1, vort sim1, bdry sim1, fldpt sim1, bem sim1, body_store sim1) of
             Fatal f \<Rightarrow> Fatal f
           | Throws e (c, v', b', p', m', h') \<Rightarrow>
               Throws e (sim1\<lparr>conv := c, vort := v', bdry := b', fldpt := p', bem := m',
                               body_store := h'\<rparr>)
           | Returns _ (c, v', b', p', m', h') \<Rightarrow>
               let sim2 = sim1\<lparr>conv := c, vort := v', bdry := b', fldpt := p', bem := m',
                               body_store := h'\<rparr>
               in Returns () (sim2\<lparr>time := time sim2 + dt sim2\<rparr>)))"

text \<open>The background thread runs \<^verbatim>\<open>step()\<close> to its end and leaves the outcome in the
  shared state of the future: an exception is stored there, not raised.\<close>

definition worker_finishes ::
  "('r, 'b, 'c) kernels \<Rightarrow> 'r cmath \<Rightarrow> ('r::{plus,times,divide}, 'b, 'c) Simulation
     \<Rightarrow> (unit, ('r, 'b, 'c) Simulation) result" where
  "worker_finishes K F sim =
     (if stepfuture sim = Running then
        (case step K F sim of
           Returns _ sim' \<Rightarrow> Returns () (sim'\<lparr>stepfuture := Ready None\<rparr>)
         | Throws e sim' \<Rightarrow> Returns () (sim'\<lparr>stepfuture := Ready (Some e)\<rparr>)
         | Fatal f \<Rightarrow> Fatal f)
      else Returns () sim)"

text \<open>\<^verbatim>\<open>stepfuture.wait()\<close> blocks until the running task has finished;
  \<^verbatim>\<open>stepfuture.get()\<close> waits likewise, then takes the result out of the shared state
  and releases it, rethrowing a stored exception.\<close>

definition future_wait ::
  "('r, 'b, 'c) kernels \<Rightarrow> 'r cmath \<Rightarrow> ('r::{plus,times,divide}, 'b, 'c) Simulation
     \<Rightarrow> (unit, ('r, 'b, 'c) Simulation) result" where
  "future_wait K F sim =
     (case stepfuture sim of
        NoState \<Rightarrow> Fatal InvalidFuture
      | Running \<Rightarrow> worker_finishes K F sim
      | Ready _ \<Rightarrow> Returns () sim)"

definition future_get ::
  "('r, 'b, 'c) kernels \<Rightarrow> 'r cmath \<Rightarrow> ('r::{plus,times,divide}, 'b, 'c) Simulation
     \<Rightarrow> (unit, ('r, 'b, 'c) Simulation) result" where
  "future_get K F sim =
     (case future_wait K F sim of
        Returns _ sim1 \<Rightarrow>
          (case stepfuture sim1 of
             Ready None \<Rightarrow> Returns () (sim1\<lparr>stepfuture := NoState\<rparr>)
           | Ready (Some e) \<Rightarrow> Throws e (sim1\<lparr>stepfuture := NoState\<rparr>)
           | _ \<Rightarrow> Fatal InvalidFuture)
      | Throws e sim1 \<Rightarrow> Throws e sim1
      | Fatal f \<Rightarrow> Fatal f)"

definition reset ::
  "('r, 'b, 'c) kernels \<Rightarrow> 'r cmath \<Rightarrow> ('r::{zero,plus,times,divide}, 'b, 'c) Simulation
     \<Rightarrow> (unit, ('r, 'b, 'c) Simulation) result" where
  "reset K F sim =
     (case (if future_valid (stepfuture sim) then
              (case future_wait K F sim of
                 Returns _ sim1 \<Rightarrow> future_get K F sim1
               | Throws e sim1 \<Rightarrow> Throws e sim1
               | Fatal f \<Rightarrow> Fatal f)
            else Returns () sim) of
        Returns _ sim2 \<Rightarrow>
          Returns () (sim2\<lparr> time := 0, vort := [], bdry := [], fldpt := [],
                            bem := bem_reset K (bem sim2), sim_is_initialized := False,
                            step_has_started := False, step_is_finished := False \<rparr>)
      | Throws e sim2 \<Rightarrow> Throws e sim2
      | Fatal f \<Rightarrow> Fatal f)"

definition clear_bodies :: "('r, 'b, 'c) Simulation \<Rightarrow> ('r, 'b, 'c) Simulation" where
  "clear_bodies sim = sim\<lparr>bodies := []\<rparr>"

text \<open>\<^verbatim>\<open>test_for_new_results\<close>; \<^verbatim>\<open>updateGL\<close> is compiled in only with \<^verbatim>\<open>USE_GL\<close> and
  touches no field of the model.\<close>

definition test_for_new_results ::
  "('r, 'b, 'c) kernels \<Rightarrow> 'r cmath \<Rightarrow> ('r::{plus,times,divide}, 'b, 'c) Simulation
     \<Rightarrow> (bool, ('r, 'b, 'c) Simulation) result" where
  "test_for_new_results K F sim =
     (if \<not> step_has_started sim then Returns True sim
      else if is_future_ready (stepfuture sim) then
        (case future_get K F sim of
           Returns _ sim1 \<Rightarrow>
             Returns True (sim1\<lparr>step_is_finished := True, step_has_started := False\<rparr>)
         | Throws e sim1 \<Rightarrow> Throws e sim1
         | Fatal f \<Rightarrow> Fatal f)
      else Returns False sim)"

text \<open>\<^verbatim>\<open>async_step\<close>: the flag is set, a new thread is started on \<^verbatim>\<open>step()\<close>, and the
  new future replaces the old one. Were the old task still running, two \<^verbatim>\<open>step()\<close>
  would run on the same object at once.\<close>

definition async_step ::
  "('r, 'b, 'c) Simulation \<Rightarrow> (unit, ('r, 'b, 'c) Simulation) result" where
  "async_step sim =
     (let sim1 = sim\<lparr>step_has_started := True\<rparr> in
      if stepfuture sim1 = Running then Fatal ConcurrentSteps
      else Returns () (sim1\<lparr>stepfuture := Running\<rparr>))"

subsection \<open>The constructor\<close>

text \<open>The solver objects are default-constructed from classes that are absent; their
  initial values are parameters.\<close>

definition Simulation_ctor ::
  "'r cmath \<Rightarrow> 'b \<Rightarrow> 'r Diffusion \<Rightarrow> 'c \<Rightarrow> ('r::zero, 'b, 'c) Simulation" where
  "Simulation_ctor F bem0 diff0 conv0 =
     \<lparr> re = lit_100 F, dt = lit_0p01 F, fs = (0, 0), bodies = [],
       vort = [], bdry = [], fldpt = [], bem = bem0, diff = diff0, conv = conv0,
       description = [], time = 0, output_dt = 0, end_time = 0, use_end_time = False,
       max_steps = 0, use_max_steps = False, sim_is_initialized = False,
       step_has_started = False, step_is_finished = False, stepfuture = NoState,
       body_store = [] \<rparr>"

subsection \<open>check_simulation and do_any_bodies_move\<close>

text \<open>Reading through a shared pointer: null has no object behind it.\<close>

definition deref :: "'r Body list \<Rightarrow> body_ptr \<Rightarrow> 'r Body option" where
  "deref h bp =
     (case bp of None \<Rightarrow> None
      | Some a \<Rightarrow> if a < length h then Some (h ! a) else None)"

text \<open>The loop of \<^verbatim>\<open>do_any_bodies_move\<close> over the body list; \<^verbatim>\<open>get_vel\<close> writes to the
  body it is called on.\<close>

fun bodies_move_loop ::
  "'r cmath \<Rightarrow> 'r::{plus,minus,times,divide,abs,ord} \<Rightarrow> 'r \<Rightarrow> body_ptr list \<Rightarrow> bool
     \<Rightarrow> 'r Body list \<Rightarrow> (bool, 'r Body list) result" where
  "bodies_move_loop F tm dtv [] some_move h = Returns some_move h"
| "bodies_move_loop F tm dtv (bp # rest) some_move h =
     (case bp of
        None \<Rightarrow> Fatal NullDereference
      | Some a \<Rightarrow>
          if \<not> a < length h then Fatal NullDereference
          else
            let (thisvel, b1) = get_vel F tm (h ! a);
                (nextvel, b2) = get_vel F (tm + dtv) b1;
                thisrot = get_rotvel tm b2;
                nextrot = get_rotvel (tm + dtv) b2;
                some_move' =
                  (if abs (vec_at thisvel 0) + abs (vec_at thisvel 1) + abs thisrot +
                      abs (vec_at nextvel 0) + abs (vec_at nextvel 1) + abs nextrot
                        > float_epsilon F
                   then True else some_move)
            in bodies_move_loop F tm dtv rest some_move' (h[a := b2]))"

definition do_any_bodies_move ::
  "'r cmath \<Rightarrow> ('r::{plus,minus,times,divide,abs,ord}, 'b, 'c) Simulation
     \<Rightarrow> (bool, ('r, 'b, 'c) Simulation) result" where
  "do_any_bodies_move F sim =
     (case bodies_move_loop F (time sim) (dt sim) (bodies sim) False (body_store sim) of
        Returns some_move h \<Rightarrow> Returns some_move (sim\<lparr>body_store := h\<rparr>)
      | Throws e h \<Rightarrow> Throws e (sim\<lparr>body_store := h\<rparr>)
      | Fatal f \<Rightarrow> Fatal f)"

definition msg_no_features_no_bodies :: string where
  "msg_no_features_no_bodies =
     ''No flow features and no bodies. Add one or both, reset, and run.'' @ [CHR 0x0A]"

definition msg_zero_freestream :: string where
  "msg_zero_freestream =
     ''No flow features and zero freestream speed - try adding one or both.'' @ [CHR 0x0A]"

definition msg_no_diffusion :: string where
  "msg_no_diffusion =
     ''You have a solid body, but no diffusion. It will not shed vorticity. Turn on viscosity or add a flow feature, reset, and run.'' @ [CHR 0x0A]"

definition check_simulation ::
  "'r cmath \<Rightarrow> nat \<Rightarrow> nat \<Rightarrow> ('r::{plus,minus,times,divide,abs,ord}, 'b, 'c) Simulation
     \<Rightarrow> (string, ('r, 'b, 'c) Simulation) result" where
  "check_simulation F nff nbf sim =
     (let retstr = [];
          retstr = (if nbf = 0 \<and> get_nparts sim = 0
                    then retstr @ msg_no_features_no_bodies else retstr)
      in if nbf > 0 \<and> get_nparts sim = 0 then
           (let zero_freestream =
                  (vec_at (fs sim) 0 * vec_at (fs sim) 0 + vec_at (fs sim) 1 * vec_at (fs sim) 1
                     < float_epsilon F)
            in case do_any_bodies_move F sim of
                 Fatal f \<Rightarrow> Fatal f
               | Throws e sim1 \<Rightarrow> Throws e sim1
               | Returns some_move sim1 \<Rightarrow>
                   let no_body_movement = \<not> some_move in
                   if zero_freestream \<and> no_body_movement
                   then Returns (retstr @ msg_zero_freestream) sim1
                   else if \<not> get_diffuse (diff sim1)
                   then Returns (retstr @ msg_no_diffusion) sim1
                   else Returns retstr sim1)
         else Returns retstr sim)"

subsection \<open>add_particles and add_fldpts\<close>

text \<open>The loop \<^verbatim>\<open>for (size_t i=3; i<_invec.size(); i+=4) _invec[i] = thisvd;\<close>\<close>

function set_vdelta_loop :: "nat \<Rightarrow> 'r \<Rightarrow> 'r list \<Rightarrow> 'r list" where
  "set_vdelta_loop i thisvd invec =
     (if i < length invec then set_vdelta_loop (i + 4) thisvd (invec[i := thisvd])
      else invec)"
  by pat_completeness auto
termination
  by (relation "measure (\<lambda>(i, thisvd, invec). length invec - i)") auto

declare set_vdelta_loop.simps [simp del]

definition add_particles ::
  "'r cmath \<Rightarrow> ('r list \<Rightarrow> 'r Points \<Rightarrow> (unit, 'r Points) result) \<Rightarrow> 'r list
     \<Rightarrow> ('r::{zero,one,uminus,times,divide}, 'b, 'c) Simulation
     \<Rightarrow> (unit, ('r, 'b, 'c) Simulation) result" where
  "add_particles F base_add_new invec0 sim =
     (if length invec0 = 0 then Returns () sim
      else if \<not> length invec0 mod 4 = 0 then Fatal AssertionFailure
      else
        let thisvd = get_vdelta F sim;
            invec = set_vdelta_loop 3 thisvd invec0
        in if length (vort sim) = 0 then
             (case Points_ctor invec active lagrangian of
                Returns pts _ \<Rightarrow> Returns () (sim\<lparr>vort := vort sim @ [CPoints pts]\<rparr>)
              | Throws e _ \<Rightarrow> Throws e sim
              | Fatal f \<Rightarrow> Fatal f)
           else
             (case last (vort sim) of
                CPoints pts \<Rightarrow>
                  (case Points_add_new base_add_new invec pts of
                     Returns _ pts' \<Rightarrow>
                       Returns () (sim\<lparr>vort := (vort sim)[length (vort sim) - 1 := CPoints pts']\<rparr>)
                   | Throws e pts' \<Rightarrow>
                       Throws e (sim\<lparr>vort := (vort sim)[length (vort sim) - 1 := CPoints pts']\<rparr>)
                   | Fatal f \<Rightarrow> Fatal f)
              | CSurfaces _ \<Rightarrow> Returns () sim))"

definition add_fldpts ::
  "('r list \<Rightarrow> 'r Points \<Rightarrow> (unit, 'r Points) result) \<Rightarrow> 'r list \<Rightarrow> bool
     \<Rightarrow> ('r::{zero,one,uminus}, 'b, 'c) Simulation
     \<Rightarrow> (unit, ('r, 'b, 'c) Simulation) result" where
  "add_fldpts base_add_new invec moves sim =
     (if length invec = 0 then Returns () sim
      else if \<not> length invec mod Dimensions = 0 then Fatal AssertionFailure
      else
        let move_type = (if moves then lagrangian else fixed)
        in if length (fldpt sim) = 0 then
             (case Points_ctor invec inert move_type of
                Returns pts _ \<Rightarrow> Returns () (sim\<lparr>fldpt := fldpt sim @ [CPoints pts]\<rparr>)
              | Throws e _ \<Rightarrow> Throws e sim
              | Fatal f \<Rightarrow> Fatal f)
           else
             (case last (fldpt sim) of
                CPoints pts \<Rightarrow>
                  (case Points_add_new base_add_new invec pts of
                     Returns _ pts' \<Rightarrow>
                       Returns () (sim\<lparr>fldpt := (fldpt sim)[length (fldpt sim) - 1 := CPoints pts']\<rparr>)
                   | Throws e pts' \<Rightarrow>
                       Throws e (sim\<lparr>fldpt := (fldpt sim)[length (fldpt sim) - 1 := CPoints pts']\<rparr>)
                   | Fatal f \<Rightarrow> Fatal f)
              | CSurfaces _ \<Rightarrow> Returns () sim))"

subsection \<open>add_boundary\<close>

text \<open>The body of the search loop: whether collection \<open>coll\<close> matches the incoming
  element kind, motion kind and body pointer.\<close>

definition this_match_of :: "elem_t \<Rightarrow> move_t \<Rightarrow> body_ptr \<Rightarrow> 'r Collection \<Rightarrow> bool" where
  "this_match_of this_elem_type this_move_type bptr coll =
     (let this_match = True;
          tet = get_elemt coll;
          this_match = (if this_elem_type \<noteq> tet then False else this_match);
          tmt = get_movet coll;
          this_match = (if this_move_type \<noteq> tmt then False else this_match);
          this_match =
            (if this_move_type = bodybound \<and> tmt = bodybound then
               (let tbp = get_body_ptr coll in if bptr \<noteq> tbp then False else this_match)
             else this_match)
      in this_match)"

definition search_match ::
  "elem_t \<Rightarrow> move_t \<Rightarrow> body_ptr \<Rightarrow> 'r Collection list \<Rightarrow> nat \<times> bool" where
  "search_match this_elem_type this_move_type bptr colls =
     fold (\<lambda>i (imatch, no_match).
             if this_match_of this_elem_type this_move_type bptr (colls ! i)
             then (i, False) else (imatch, no_match))
          [0..<length colls] (0, True)"

definition add_boundary ::
  "body_ptr \<Rightarrow> 'r ElementPacket \<Rightarrow> ('r, 'b, 'c) Simulation \<Rightarrow> ('r, 'b, 'c) Simulation" where
  "add_boundary bptr geom sim =
     (let this_elem_type = reactive;
          this_move_type = (if bptr \<noteq> None then bodybound else fixed);
          (imatch, no_match) = search_match this_elem_type this_move_type bptr (bdry sim)
      in if no_match then
           sim\<lparr>bdry := bdry sim @
                  [CSurfaces (Surfaces_ctor (pkt_x geom) (pkt_idx geom) (pkt_val geom)
                                reactive this_move_type bptr)]\<rparr>
         else
           (case bdry sim ! imatch of
              CSurfaces surf \<Rightarrow>
                sim\<lparr>bdry := (bdry sim)[imatch :=
                       CSurfaces (Surfaces_add_new (pkt_x geom) (pkt_idx geom) (pkt_val geom) surf)]\<rparr>
            | CPoints _ \<Rightarrow> sim))"

text \<open>The boundary lists the program can hold. \<^verbatim>\<open>bdry\<close> is a private member; it is
  empty after the constructor and after \<^verbatim>\<open>reset\<close>, and \<^verbatim>\<open>add_boundary\<close> is the only
  function of Simulation.cpp that adds a collection to it. The diffusion and convection
  passes get it by reference and their code is not part of these sources: the rule
  \<^verbatim>\<open>bb_kept\<close> admits every change that keeps the number of the collections, their
  alternative, their kinds and their body, whatever else it does to what they hold.\<close>

definition collection_kind :: "'r Collection \<Rightarrow> bool \<times> elem_t \<times> move_t \<times> body_ptr" where
  "collection_kind coll =
     ((case coll of CSurfaces _ \<Rightarrow> True | CPoints _ \<Rightarrow> False),
      get_elemt coll, get_movet coll, get_body_ptr coll)"

inductive boundary_built :: "('r, 'b, 'c) Simulation \<Rightarrow> bool" where
  bb_empty: "bdry sim = [] \<Longrightarrow> boundary_built sim"
| bb_add: "boundary_built sim \<Longrightarrow> boundary_built (add_boundary bptr geom sim)"
| bb_kept: "boundary_built sim \<Longrightarrow>
            map collection_kind (bdry sim') = map collection_kind (bdry sim) \<Longrightarrow>
            boundary_built sim'"

text \<open>What every such list satisfies: each collection is a panel set, reactive, body-bound
  exactly when it has a body, and no two collections have the same body pointer.\<close>

definition kind_ok :: "bool \<times> elem_t \<times> move_t \<times> body_ptr \<Rightarrow> bool" where
  "kind_ok k =
     (case k of (is_surfaces, e, m, bp) \<Rightarrow>
        is_surfaces \<and> e = reactive \<and> m = (if bp \<noteq> None then bodybound else fixed))"

definition boundary_inv :: "'r Collection list \<Rightarrow> bool" where
  "boundary_inv colls \<longleftrightarrow>
     list_all kind_ok (map collection_kind colls) \<and>
     distinct (map (\<lambda>k. snd (snd (snd k))) (map collection_kind colls))"

subsection \<open>The body list\<close>

text \<open>What the functions of the body list write to \<^verbatim>\<open>std::cout\<close>:
  \<^verbatim>\<open>"  added new body (" << name << "), now have " << bodies.size()\<close>,
  \<^verbatim>\<open>"  found body matching name (" << _name << ")"\<close> and
  \<^verbatim>\<open>"  no body matching (" << _name << ") found, creating (ground)"\<close>.\<close>

datatype sim_cout =
    AddedNewBody string nat
  | FoundBodyMatchingName string
  | NoBodyMatchingCreatingGround string

definition add_body ::
  "body_ptr \<Rightarrow> ('r, 'b, 'c) Simulation \<Rightarrow> (sim_cout list, ('r, 'b, 'c) Simulation) result" where
  "add_body body sim =
     (let sim1 = sim\<lparr>bodies := bodies sim @ [body]\<rparr> in
      case deref (body_store sim1) body of
        None \<Rightarrow> Fatal NullDereference
      | Some b \<Rightarrow> Returns [AddedNewBody (get_name b) (length (bodies sim1))] sim1)"

text \<open>\<^verbatim>\<open>std::make_shared<Body>()\<close>: a new body in the store, at a fresh address.\<close>

definition make_shared_Body ::
  "('r::zero, 'b, 'c) Simulation \<Rightarrow> body_ptr \<times> ('r, 'b, 'c) Simulation" where
  "make_shared_Body sim =
     (Some (length (body_store sim)), sim\<lparr>body_store := body_store sim @ [Body_default]\<rparr>)"

text \<open>The search loop of \<^verbatim>\<open>get_pointer_to_body\<close>: it reads each body's name and prints
  a line for each match; it has no access to \<^verbatim>\<open>bp\<close>.\<close>

fun find_name_loop ::
  "string \<Rightarrow> 'r Body list \<Rightarrow> body_ptr list \<Rightarrow> sim_cout list \<Rightarrow> (sim_cout list, unit) result" where
  "find_name_loop nm h [] out = Returns out ()"
| "find_name_loop nm h (bptr # rest) out =
     (case deref h bptr of
        None \<Rightarrow> Fatal NullDereference
      | Some b \<Rightarrow>
          find_name_loop nm h rest
            (if get_name b = nm then out @ [FoundBodyMatchingName nm] else out))"

definition get_pointer_to_body ::
  "string \<Rightarrow> ('r::zero, 'b, 'c) Simulation
     \<Rightarrow> (body_ptr \<times> sim_cout list, ('r, 'b, 'c) Simulation) result" where
  "get_pointer_to_body nm sim =
     (let bp = (None :: body_ptr) in
      case find_name_loop nm (body_store sim) (bodies sim) [] of
        Fatal f \<Rightarrow> Fatal f
      | Throws e _ \<Rightarrow> Throws e sim
      | Returns out _ \<Rightarrow>
          if \<not> bp \<noteq> None then
            (let out = out @ [NoBodyMatchingCreatingGround nm];
                 (bp, sim1) = make_shared_Body sim
             in case bp of
                  None \<Rightarrow> Fatal NullDereference
                | Some a \<Rightarrow>
                    let sim2 = sim1\<lparr>body_store :=
                                 (body_store sim1)[a := set_name ''ground'' (body_store sim1 ! a)]\<rparr>
                    in (case add_body bp sim2 of
                          Fatal f \<Rightarrow> Fatal f
                        | Throws e sim3 \<Rightarrow> Throws e sim3
                        | Returns out' sim3 \<Rightarrow> Returns (bp, out @ out') sim3))
          else Returns (bp, out) sim)"

subsection \<open>Consecutive steps\<close>

text \<open>\<open>n\<close> calls of \<^verbatim>\<open>step()\<close> one after the other, stopping at the first that does
  not return.\<close>

fun run_steps ::
  "('r, 'b, 'c) kernels \<Rightarrow> 'r cmath \<Rightarrow> nat \<Rightarrow> ('r::{plus,times,divide}, 'b, 'c) Simulation
     \<Rightarrow> (unit, ('r, 'b, 'c) Simulation) result" where
  "run_steps K F 0 sim = Returns () sim"
| "run_steps K F (Suc n) sim =
     (case step K F sim of
        Returns _ sim1 \<Rightarrow> run_steps K F n sim1
      | Throws e sim1 \<Rightarrow> Throws e sim1
      | Fatal f \<Rightarrow> Fatal f)"

section \<open>Concrete instances, for evaluating the model\<close>

definition cmath_real :: "real cmath" where
  "cmath_real =
     \<lparr> std_sqrt = sqrt, float_epsilon = 1 / 2 ^ 23, lit_1em5 = 1 / 100000, lit_2 = 2,
       lit_100 = 100, lit_0p01 = 1 / 100 \<rparr>"

definition diffusion_on :: "real Diffusion" where
  "diffusion_on = \<lparr> diffuse = True, nom_sep_scaled = 1, particle_overlap = 1 \<rparr>"

text \<open>Passes that return normally and change nothing, and a diffusion pass that throws.\<close>

definition kernels_quiet :: "(real, unit, unit) kernels" where
  "kernels_quiet =
     \<lparr> diff_step = (\<lambda>tm dtv rev vd fsv w. Returns () w),
       advect_2nd = (\<lambda>tm dtv fsv w. Returns () w),
       bem_reset = (\<lambda>m. m) \<rparr>"

definition kernels_failing :: "(real, unit, unit) kernels" where
  "kernels_failing =
     \<lparr> diff_step = (\<lambda>tm dtv rev vd fsv w. Throws (Exception ''diffusion'') w),
       advect_2nd = (\<lambda>tm dtv fsv w. Returns () w),
       bem_reset = (\<lambda>m. m) \<rparr>"

definition fresh_sim :: "(real, unit, unit) Simulation" where
  "fresh_sim = Simulation_ctor cmath_real () diffusion_on ()"

text \<open>An \<^verbatim>\<open>ElementBase::add_new\<close> that appends nothing and returns.\<close>

definition add_new_quiet :: "real list \<Rightarrow> real Points \<Rightarrow> (unit, real Points) result" where
  "add_new_quiet invec p = Returns () p"

text \<open>Geometry packets of one and of two panels, and the panel set that the
  constructor makes of a packet.\<close>

definition panel_one :: "real ElementPacket" where
  "panel_one = \<lparr> pkt_x = [0, 0, 1, 0], pkt_idx = [0, 1], pkt_val = [0] \<rparr>"

definition panel_two :: "real ElementPacket" where
  "panel_two = \<lparr> pkt_x = [0, 0, 1, 0, 1, 1], pkt_idx = [0, 1, 1, 2], pkt_val = [0, 0] \<rparr>"

definition surf_of :: "real ElementPacket \<Rightarrow> move_t \<Rightarrow> body_ptr \<Rightarrow> real Collection" where
  "surf_of g m bp = CSurfaces (Surfaces_ctor (pkt_x g) (pkt_idx g) (pkt_val g) reactive m bp)"

text \<open>A simulation with a fixed wall and one moving body, built by two calls of
  \<^verbatim>\<open>add_boundary\<close> on a new simulation.\<close>

definition sim_wall_and_body :: "(real, unit, unit) Simulation" where
  "sim_wall_and_body = add_boundary (Some 0) panel_two (add_boundary None panel_one fresh_sim)"

text \<open>Passes that record each call, with the step size they were given, in the
  (opaque) solver state; and a simulation with one boundary, one body and a step in
  flight.\<close>

definition kernels_logging :: "(real, (string \<times> real) list, unit) kernels" where
  "kernels_logging =
     \<lparr> diff_step = (\<lambda>tm dtv rev vd fsv (d, v, b, m, h).
                       Returns () (d, v, b, m @ [(''diff.step'', dtv)], h)),
       advect_2nd = (\<lambda>tm dtv fsv (c, v, b, p, m, h).
                       Returns () (c, v, b, p, m @ [(''conv.advect_2nd'', dtv)], h)),
       bem_reset = (\<lambda>m. []) \<rparr>"

definition logging_sim :: "(real, (string \<times> real) list, unit) Simulation" where
  "logging_sim = Simulation_ctor cmath_real [] diffusion_on ()"

definition sim_in_flight :: "(real, unit, unit) Simulation" where
  "sim_in_flight =
     fresh_sim\<lparr> bodies := [Some 0], bdry := [surf_of panel_one fixed None],
                 body_store := [Body_default], step_has_started := True,
                 stepfuture := Running \<rparr>"

text \<open>One boundary, no particles, zero freestream, one body at rest, diffusion
  disabled.\<close>

definition sim_no_diffusion :: "(real, unit, unit) Simulation" where
  "sim_no_diffusion =
     fresh_sim\<lparr> bodies := [Some 0], bdry := [surf_of panel_one fixed None],
                 diff := diffusion_on\<lparr>diffuse := False\<rparr>,
                 body_store := [Body_default] \<rparr>"

text \<open>An \<^verbatim>\<open>ElementBase::add_new\<close> that appends the incoming radii, and a simulation
  that already holds an (empty) collection of particles.\<close>

definition add_new_radii :: "real list \<Rightarrow> real Points \<Rightarrow> (unit, real Points) result" where
  "add_new_radii invec p =
     Returns () (p\<lparr> elem_n := elem_n p + length invec div 4,
                      elem_r := elem_r p @ map (\<lambda>i. invec ! (4 * i + 3)) [0..<length invec div 4] \<rparr>)"

definition no_points :: "real Points" where
  "no_points =
     \<lparr> elem_n = 0, elem_E = active, elem_M = lagrangian, elem_B = None,
       elem_x = ([], []), elem_r = [], elem_s = Some [[], [], []], elem_u = ([], []),
       max_strength = - 1 \<rparr>"

definition sim_with_points :: "(real, unit, unit) Simulation" where
  "sim_with_points = fresh_sim\<lparr>vort := [CPoints no_points]\<rparr>"

text \<open>A simulation whose body list holds one body, named wing.\<close>

definition sim_with_wing :: "(real, unit, unit) Simulation" where
  "sim_with_wing =
     fresh_sim\<lparr>bodies := [Some 0], body_store := [set_name ''wing'' Body_default]\<rparr>"

section \<open>Body kinematics: proofs\<close>

lemma fold_Dimensions: "fold f [0..<Dimensions] b = f 1 (f 0 b)"
proof -
  have "[0..<Dimensions] = [0, 1]"
    by (simp add: Dimensions_def upt_rec)
  then show ?thesis by simp
qed

lemma get_pos_no_func:
  "pos_func b = (None, None) \<Longrightarrow> get_pos t b = (pos b, b\<lparr>this_time := t\<rparr>)"
  by (simp add: get_pos_def fold_Dimensions get_pos_body_def vec_at_def)

lemma get_vel_no_func:
  "pos_func b = (None, None) \<Longrightarrow> get_vel F t b = (vel b, b)"
  by (simp add: get_vel_def fold_Dimensions get_vel_body_def vec_at_def)

lemma constant_body_inv:
  "constant_body F b \<Longrightarrow> pos_func b = (None, None) \<and> vel b = (0, 0)"
proof (induction rule: constant_body.induct)
  case (cb_ctor x0 y0)
  show ?case by (simp add: Body_ctor_def)
next
  case (cb_set_pos b i v b')
  then show ?case by (auto simp: set_pos_def split: if_splits)
next
  case (cb_set_name b nm)
  then show ?case by (simp add: set_name_def)
next
  case (cb_set_parent b nm)
  then show ?case by (simp add: set_parent_name_def)
next
  case (cb_get_pos b t)
  then show ?case by (simp add: get_pos_no_func)
next
  case (cb_get_vel b t)
  then show ?case by (simp add: get_vel_no_func)
qed

lemma vec_at_vec_set_same: "i < Dimensions \<Longrightarrow> vec_at (vec_set v i a) i = a"
  by (simp add: vec_at_def vec_set_def)

text \<open>
  C6. For a body whose coordinates were only ever set to constants (no compiled
  expression), \<^verbatim>\<open>get_pos(t)\<close> returns the stored position at every time \<open>t\<close> and leaves
  it stored, and \<^verbatim>\<open>get_vel(t)\<close> returns exactly \<open>(0, 0)\<close> at every time \<open>t\<close>. The stored
  position is what the constructor and the last \<^verbatim>\<open>set_pos\<close> of each coordinate wrote:
  after \<^verbatim>\<open>set_pos(i, v)\<close> with \<open>i\<close> below \<^verbatim>\<open>Dimensions\<close>, component \<open>i\<close> of
  \<^verbatim>\<open>get_pos(t)\<close> is \<open>v\<close>.
\<close>

theorem C6_constant_body_kinematics:
  assumes "constant_body F b" and "i < Dimensions"
  shows "fst (get_pos t b) = pos b \<and>
         pos (snd (get_pos t b)) = pos b \<and>
         fst (get_vel F t b) = (0, 0) \<and>
         (\<exists>b'. set_pos i v b = Returns () b' \<and> constant_body F b' \<and>
               vec_at (fst (get_pos t b')) i = v)"
proof -
  from assms(1) have inv: "pos_func b = (None, None)" "vel b = (0, 0)"
    using constant_body_inv by blast+
  let ?b' = "b\<lparr>pos := vec_set (pos b) i v\<rparr>"
  have sp: "set_pos i v b = Returns () ?b'"
    using assms(2) by (simp add: set_pos_def)
  have cb: "constant_body F ?b'"
    using cb_set_pos [OF assms(1) sp] .
  have "pos_func ?b' = (None, None)"
    using inv by simp
  then have "fst (get_pos t ?b') = vec_set (pos b) i v"
    by (simp add: get_pos_no_func)
  then have "vec_at (fst (get_pos t ?b')) i = v"
    using assms(2) by (simp add: vec_at_vec_set_same)
  with sp cb have "\<exists>b'. set_pos i v b = Returns () b' \<and> constant_body F b' \<and>
                       vec_at (fst (get_pos t b')) i = v"
    by blast
  then show ?thesis
    by (simp add: get_pos_no_func get_vel_no_func inv)
qed

theorem C6_constant_body_kinematics_witness:
  "constant_body cmath_real (Body_ctor 3 4) \<and> (1::nat) < Dimensions \<and>
   fst (get_pos 7 (Body_ctor (3::real) 4)) = (3, 4) \<and>
   fst (get_vel cmath_real 7 (Body_ctor 3 4)) = (0, 0) \<and>
   (\<exists>b'. set_pos 1 9 (Body_ctor (3::real) 4) = Returns () b' \<and>
         vec_at (fst (get_pos 7 b')) 1 = 9)"
proof -
  have h1: "constant_body cmath_real (Body_ctor 3 4)"
    by (rule cb_ctor)
  have h2: "(1::nat) < Dimensions"
    by (simp add: Dimensions_def)
  have "pos (Body_ctor (3::real) 4) = (3, 4)"
    by (simp add: Body_ctor_def)
  with C6_constant_body_kinematics [OF h1 h2, of 7 9] h1 h2 show ?thesis
    by auto
qed

lemma get_pos_body_pos_func: "pos_func (get_pos_body j b) = pos_func b"
  by (simp add: get_pos_body_def split: option.splits)

lemma get_pos_body_keeps:
  assumes "i < Dimensions" and "vec_at (pos_func b) i = None" and "j < Dimensions"
  shows "vec_at (pos (get_pos_body j b)) i = vec_at (pos b) i"
proof (cases "vec_at (pos_func b) j")
  case None
  then show ?thesis by (simp add: get_pos_body_def)
next
  case (Some g)
  with assms(2) have "j \<noteq> i" by auto
  moreover from assms(1) have "i = 0 \<or> i = 1"
    by (auto simp: Dimensions_def)
  moreover from assms(3) have "j = 0 \<or> j = 1"
    by (auto simp: Dimensions_def)
  ultimately have "vec_at (vec_set (pos b) j a) i = vec_at (pos b) i" for a
    by (auto simp: vec_at_def vec_set_def)
  with Some show ?thesis by (simp add: get_pos_body_def)
qed

lemma get_pos_keeps:
  assumes "i < Dimensions" and "vec_at (pos_func b) i = None"
  shows "vec_at (fst (get_pos t b)) i = vec_at (pos b) i"
    and "pos_func (snd (get_pos t b)) = pos_func b"
    and "pos (snd (get_pos t b)) = fst (get_pos t b)"
proof -
  let ?b1 = "b\<lparr>this_time := t\<rparr>"
  let ?b2 = "get_pos_body 0 ?b1"
  let ?b3 = "get_pos_body 1 ?b2"
  have gp: "get_pos t b = (pos ?b3, ?b3)"
    by (simp add: get_pos_def fold_Dimensions Let_def)
  have d: "(0::nat) < Dimensions" "(1::nat) < Dimensions"
    by (simp_all add: Dimensions_def)
  have f1: "vec_at (pos_func ?b1) i = None"
    using assms(2) by simp
  have f2: "vec_at (pos_func ?b2) i = None"
    using f1 by (simp only: get_pos_body_pos_func)
  have "vec_at (pos ?b3) i = vec_at (pos ?b2) i"
    using get_pos_body_keeps [OF assms(1) f2 d(2)] .
  also have "\<dots> = vec_at (pos ?b1) i"
    using get_pos_body_keeps [OF assms(1) f1 d(1)] .
  finally show "vec_at (fst (get_pos t b)) i = vec_at (pos b) i"
    by (simp add: gp)
  show "pos_func (snd (get_pos t b)) = pos_func b"
    by (simp add: gp get_pos_body_pos_func)
  show "pos (snd (get_pos t b)) = fst (get_pos t b)"
    by (simp add: gp)
qed

lemma get_pos_repeated:
  assumes "i < Dimensions" and "vec_at (pos_func b) i = None"
  shows "vec_at (pos_func (fold (\<lambda>t b. snd (get_pos t b)) ts b)) i = None \<and>
         vec_at (pos (fold (\<lambda>t b. snd (get_pos t b)) ts b)) i = vec_at (pos b) i"
  using assms
proof (induction ts arbitrary: b)
  case Nil
  then show ?case by simp
next
  case (Cons t ts)
  let ?b1 = "snd (get_pos t b)"
  have pf: "vec_at (pos_func ?b1) i = None"
    using Cons.prems by (simp add: get_pos_keeps(2))
  have ps: "vec_at (pos ?b1) i = vec_at (pos b) i"
    using Cons.prems by (simp add: get_pos_keeps(3) get_pos_keeps(1))
  from Cons.IH [OF Cons.prems(1) pf] ps show ?case
    by simp
qed

text \<open>
  C7. \<^verbatim>\<open>Body::set_pos(i, expression)\<close> with \<open>i\<close> below \<^verbatim>\<open>Dimensions\<close> and an
  expression that \<^verbatim>\<open>te_compile\<close> rejects (null result, error offset \<open>ierr\<close>) returns
  normally; it prints the diagnostic that carries the expression and the offset
  \<open>ierr\<close>; the compiled-function slot of coordinate \<open>i\<close> is null afterwards and the stored
  position is untouched; and every later \<^verbatim>\<open>get_pos\<close>, at any time and after any number
  of earlier \<^verbatim>\<open>get_pos\<close> calls, returns for coordinate \<open>i\<close> the value that was stored
  before the failed call.
\<close>

theorem C7_failed_compile_keeps_constant:
  assumes "i < Dimensions" and "te_compile val = (None, ierr)"
  shows "\<exists>b'. set_pos_expr te_compile i val b = Returns [ErrorParsingExpression val ierr] b' \<and>
              vec_at (pos_func b') i = None \<and>
              pos b' = pos b \<and>
              (\<forall>ts t. vec_at (fst (get_pos t (fold (\<lambda>t b. snd (get_pos t b)) ts b'))) i
                        = vec_at (pos b) i)"
proof -
  let ?b' = "b\<lparr>pos_expr := vec_set (pos_expr b) i val, pos_func := vec_set (pos_func b) i None\<rparr>"
  have slot: "vec_at (pos_func ?b') i = None"
    using assms(1) by (simp add: vec_at_vec_set_same)
  have ret: "set_pos_expr te_compile i val b = Returns [ErrorParsingExpression val ierr] ?b'"
    using assms slot by (simp add: set_pos_expr_def Let_def)
  have later: "vec_at (fst (get_pos t (fold (\<lambda>t b. snd (get_pos t b)) ts ?b'))) i
                 = vec_at (pos b) i" for ts t
  proof -
    let ?c = "fold (\<lambda>t b. snd (get_pos t b)) ts ?b'"
    from get_pos_repeated [OF assms(1) slot, of ts]
    have c: "vec_at (pos_func ?c) i = None" "vec_at (pos ?c) i = vec_at (pos b) i"
      by simp_all
    from get_pos_keeps(1) [OF assms(1) c(1), of t] c(2) show ?thesis
      by simp
  qed
  from ret slot later show ?thesis
    by (intro exI [of _ ?b']) simp
qed

theorem C7_failed_compile_keeps_constant_witness:
  "(0::nat) < Dimensions \<and> (\<lambda>s. (None, 2)) ''(t'' = (None :: (real \<Rightarrow> real) option, 2 :: int) \<and>
   (\<exists>b'. set_pos_expr (\<lambda>s. (None, 2)) 0 ''(t'' (Body_ctor (3::real) 4)
            = Returns [ErrorParsingExpression ''(t'' 2] b' \<and>
         vec_at (pos_func b') 0 = None \<and>
         vec_at (fst (get_pos 5 (fold (\<lambda>t b. snd (get_pos t b)) [1, 2] b'))) 0 = 3)"
proof -
  have h1: "(0::nat) < Dimensions"
    by (simp add: Dimensions_def)
  have h2: "(\<lambda>s. (None, 2)) ''(t'' = (None :: (real \<Rightarrow> real) option, 2 :: int)"
    by simp
  have h3: "vec_at (pos (Body_ctor (3::real) 4)) 0 = 3"
    by (simp add: Body_ctor_def vec_at_def)
  from C7_failed_compile_keeps_constant
         [of 0 "\<lambda>s. (None, 2)" "''(t''" 2 "Body_ctor (3::real) 4", OF h1 h2]
  obtain b' where
    b': "set_pos_expr (\<lambda>s. (None, 2)) 0 ''(t'' (Body_ctor (3::real) 4)
           = Returns [ErrorParsingExpression ''(t'' 2] b'"
        "vec_at (pos_func b') 0 = None"
        "\<forall>ts t. vec_at (fst (get_pos t (fold (\<lambda>t b. snd (get_pos t b)) ts b'))) 0
                   = vec_at (pos (Body_ctor (3::real) 4)) 0"
    by blast
  from b'(3) have "vec_at (fst (get_pos 5 (fold (\<lambda>t b. snd (get_pos t b)) [1, 2] b'))) 0 = 3"
    unfolding h3 by blast
  with b'(1,2) h1 h2 show ?thesis
    by blast
qed

section \<open>Boundary collections: proofs\<close>

lemma this_match_of_iff:
  "this_match_of e m bp c \<longleftrightarrow>
     get_elemt c = e \<and> get_movet c = m \<and> (m = bodybound \<longrightarrow> get_body_ptr c = bp)"
  by (auto simp: this_match_of_def Let_def)

lemma search_prefix:
  fixes colls :: "'r Collection list"
  assumes "fold (\<lambda>i (imatch, no_match).
                   if this_match_of e m bp (colls ! i) then (i, False) else (imatch, no_match))
             [0..<n] (0, True) = (k, nm)"
  shows "(nm \<longleftrightarrow> (\<forall>i<n. \<not> this_match_of e m bp (colls ! i))) \<and>
         (\<not> nm \<longrightarrow> k < n \<and> this_match_of e m bp (colls ! k) \<and>
            (\<forall>j. k < j \<and> j < n \<longrightarrow> \<not> this_match_of e m bp (colls ! j)))"
  using assms
proof (induction n arbitrary: k nm)
  case 0
  then show ?case by simp
next
  case (Suc n)
  let ?P = "this_match_of e m bp"
  let ?f = "\<lambda>i (imatch, no_match). if ?P (colls ! i) then (i, False) else (imatch, no_match)"
  obtain k0 nm0 where pre: "fold ?f [0..<n] (0, True) = (k0, nm0)"
    by (cases "fold ?f [0..<n] (0, True)")
  note ih = Suc.IH [OF pre]
  have unf: "fold ?f [0..<Suc n] (0, True) = ?f n (fold ?f [0..<n] (0, True))"
    by simp
  have "?f n (k0, nm0) = (k, nm)"
    using Suc.prems unfolding unf pre .
  then have step: "(k, nm) = (if ?P (colls ! n) then (n, False) else (k0, nm0))"
    by (simp split: if_splits)
  show ?case
  proof (cases "?P (colls ! n)")
    case True
    with step have kn: "k = n" "nm = False" by simp_all
    have a: "\<not> (\<forall>i<Suc n. \<not> ?P (colls ! i))"
      using True by blast
    have "\<not> (n < j \<and> j < Suc n)" for j
      by linarith
    then have b: "\<forall>j. n < j \<and> j < Suc n \<longrightarrow> \<not> ?P (colls ! j)"
      by blast
    from a b True show ?thesis
      unfolding kn by simp
  next
    case False
    with step have eq: "k = k0" "nm = nm0" by simp_all
    have all: "(\<forall>i<Suc n. \<not> ?P (colls ! i)) \<longleftrightarrow> (\<forall>i<n. \<not> ?P (colls ! i))"
      using False by (simp add: less_Suc_eq)
    from ih have i1: "nm0 \<longleftrightarrow> (\<forall>i<n. \<not> ?P (colls ! i))"
      by (rule conjunct1)
    from ih have i2: "\<not> nm0 \<longrightarrow> k0 < n \<and> ?P (colls ! k0) \<and>
                        (\<forall>j. k0 < j \<and> j < n \<longrightarrow> \<not> ?P (colls ! j))"
      by (rule conjunct2)
    have c1: "nm0 \<longleftrightarrow> (\<forall>i<Suc n. \<not> ?P (colls ! i))"
      unfolding all by (rule i1)
    have c2: "k0 < Suc n \<and> ?P (colls ! k0) \<and> (\<forall>j. k0 < j \<and> j < Suc n \<longrightarrow> \<not> ?P (colls ! j))"
      if "\<not> nm0"
    proof -
      from i2 that have "k0 < n \<and> ?P (colls ! k0) \<and> (\<forall>j. k0 < j \<and> j < n \<longrightarrow> \<not> ?P (colls ! j))"
        by (rule mp)
      then have h: "k0 < n" "?P (colls ! k0)" "\<forall>j. k0 < j \<and> j < n \<longrightarrow> \<not> ?P (colls ! j)"
        by blast+
      have "\<not> ?P (colls ! j)" if "k0 < j" "j < Suc n" for j
      proof (cases "j = n")
        case True
        with False show ?thesis by simp
      next
        case False
        with that have "j < n" by simp
        with h(3) that(1) show ?thesis by blast
      qed
      with h(1,2) show ?thesis by simp
    qed
    from c1 c2 show ?thesis
      unfolding eq by blast
  qed
qed

lemma search_match_spec:
  assumes "search_match e m bp colls = (k, nm)"
  shows "(nm \<longleftrightarrow> (\<forall>i<length colls. \<not> this_match_of e m bp (colls ! i))) \<and>
         (\<not> nm \<longrightarrow> k < length colls \<and> this_match_of e m bp (colls ! k) \<and>
            (\<forall>j. k < j \<and> j < length colls \<longrightarrow> \<not> this_match_of e m bp (colls ! j)))"
  using assms unfolding search_match_def by (rule search_prefix)

lemma search_match_no_match:
  assumes "\<forall>c\<in>set colls. \<not> this_match_of e m bp c"
  shows "\<exists>k. search_match e m bp colls = (k, True)"
proof -
  obtain k nm where s: "search_match e m bp colls = (k, nm)"
    by (cases "search_match e m bp colls")
  have "\<forall>i<length colls. \<not> this_match_of e m bp (colls ! i)"
    using assms nth_mem by blast
  with search_match_spec [OF s] have nm
    by (rule_tac iffD2) (erule conjunct1)
  with s show ?thesis by simp
qed

lemma search_match_last:
  assumes "k < length colls" and "this_match_of e m bp (colls ! k)"
    and "\<forall>j. k < j \<and> j < length colls \<longrightarrow> \<not> this_match_of e m bp (colls ! j)"
  shows "search_match e m bp colls = (k, False)"
proof -
  obtain k' nm where s: "search_match e m bp colls = (k', nm)"
    by (cases "search_match e m bp colls")
  note sp = search_match_spec [OF s]
  from sp have "nm \<longleftrightarrow> (\<forall>i<length colls. \<not> this_match_of e m bp (colls ! i))"
    by (rule conjunct1)
  with assms(1,2) have nm: "\<not> nm" by blast
  with sp have k': "k' < length colls" "this_match_of e m bp (colls ! k')"
    "\<forall>j. k' < j \<and> j < length colls \<longrightarrow> \<not> this_match_of e m bp (colls ! j)"
    by blast+
  have "\<not> k' < k"
    using k'(3) assms(1,2) by blast
  moreover have "\<not> k < k'"
    using assms(3) k'(1,2) by blast
  ultimately have "k' = k" by simp
  with nm s show ?thesis by simp
qed

lemma add_boundary_append:
  assumes "\<forall>c\<in>set (bdry sim). \<not> this_match_of reactive (if bptr \<noteq> None then bodybound else fixed) bptr c"
  shows "add_boundary bptr geom sim =
           sim\<lparr>bdry := bdry sim @
                  [CSurfaces (Surfaces_ctor (pkt_x geom) (pkt_idx geom) (pkt_val geom) reactive
                                (if bptr \<noteq> None then bodybound else fixed) bptr)]\<rparr>"
proof -
  from search_match_no_match [OF assms]
  obtain k where "search_match reactive (if bptr \<noteq> None then bodybound else fixed) bptr (bdry sim)
                    = (k, True)"
    by blast
  then show ?thesis
    unfolding add_boundary_def Let_def by simp
qed

lemma add_boundary_merge:
  assumes "k < length (bdry sim)"
    and "this_match_of reactive (if bptr \<noteq> None then bodybound else fixed) bptr (bdry sim ! k)"
    and "\<forall>j. k < j \<and> j < length (bdry sim) \<longrightarrow>
           \<not> this_match_of reactive (if bptr \<noteq> None then bodybound else fixed) bptr (bdry sim ! j)"
  shows "add_boundary bptr geom sim =
           (case bdry sim ! k of
              CSurfaces surf \<Rightarrow>
                sim\<lparr>bdry := (bdry sim)[k :=
                       CSurfaces (Surfaces_add_new (pkt_x geom) (pkt_idx geom) (pkt_val geom) surf)]\<rparr>
            | CPoints _ \<Rightarrow> sim)"
  using search_match_last [OF assms]
  unfolding add_boundary_def Let_def by simp

lemma no_double_match:
  assumes "a \<noteq> a'"
  shows "\<not> (this_match_of reactive bodybound (Some a) c \<and>
            this_match_of reactive bodybound (Some a') c)"
  using assms by (simp add: this_match_of_iff)

lemma add_boundary_first:
  assumes "bdry sim = []"
  shows "add_boundary bptr geom sim =
           sim\<lparr>bdry := [CSurfaces (Surfaces_ctor (pkt_x geom) (pkt_idx geom) (pkt_val geom) reactive
                                     (if bptr \<noteq> None then bodybound else fixed) bptr)]\<rparr>"
  using add_boundary_append [of sim bptr geom] assms by simp

lemma Surfaces_ctor_kinds:
  "get_elemt (CSurfaces (Surfaces_ctor x idx val e m bp)) = e"
  "get_movet (CSurfaces (Surfaces_ctor x idx val e m bp)) = m"
  "get_body_ptr (CSurfaces (Surfaces_ctor x idx val e m bp)) = bp"
  by (simp_all add: get_elemt_def get_movet_def get_body_ptr_def Surfaces_ctor_def Let_def)

lemma add_boundary_two_bodies:
  assumes "bdry sim = []" and "a \<noteq> a'"
  shows "bdry (add_boundary (Some a') g2 (add_boundary (Some a) g1 sim)) =
           [CSurfaces (Surfaces_ctor (pkt_x g1) (pkt_idx g1) (pkt_val g1) reactive bodybound (Some a)),
            CSurfaces (Surfaces_ctor (pkt_x g2) (pkt_idx g2) (pkt_val g2) reactive bodybound (Some a'))]"
proof -
  let ?c1 = "CSurfaces (Surfaces_ctor (pkt_x g1) (pkt_idx g1) (pkt_val g1) reactive bodybound (Some a))"
  let ?sim1 = "add_boundary (Some a) g1 sim"
  have s1: "?sim1 = sim\<lparr>bdry := [?c1]\<rparr>"
    using add_boundary_first [OF assms(1), of "Some a" g1] by simp
  have "\<not> this_match_of reactive bodybound (Some a') ?c1"
    using assms(2) by (simp add: this_match_of_iff Surfaces_ctor_kinds)
  then have "\<forall>c\<in>set (bdry ?sim1).
               \<not> this_match_of reactive (if Some a' \<noteq> None then bodybound else fixed) (Some a') c"
    by (simp add: s1)
  from add_boundary_append [OF this, of g2] show ?thesis
    by (simp add: s1)
qed

lemma add_boundary_same_body:
  assumes "bdry sim = []"
  shows "bdry (add_boundary bptr g2 (add_boundary bptr g1 sim)) =
           [CSurfaces (Surfaces_add_new (pkt_x g2) (pkt_idx g2) (pkt_val g2)
              (Surfaces_ctor (pkt_x g1) (pkt_idx g1) (pkt_val g1) reactive
                 (if bptr \<noteq> None then bodybound else fixed) bptr))]"
proof -
  let ?mt = "if bptr \<noteq> None then bodybound else fixed"
  let ?s1 = "Surfaces_ctor (pkt_x g1) (pkt_idx g1) (pkt_val g1) reactive ?mt bptr"
  let ?sim1 = "add_boundary bptr g1 sim"
  have s1: "?sim1 = sim\<lparr>bdry := [CSurfaces ?s1]\<rparr>"
    using add_boundary_first [OF assms, of bptr g1] .
  have m: "this_match_of reactive ?mt bptr (CSurfaces ?s1)"
    unfolding this_match_of_iff Surfaces_ctor_kinds by simp
  have k: "0 < length (bdry ?sim1)"
    by (simp add: s1)
  have m0: "this_match_of reactive ?mt bptr (bdry ?sim1 ! 0)"
    using m by (simp add: s1)
  have later: "\<forall>j. 0 < j \<and> j < length (bdry ?sim1) \<longrightarrow>
                 \<not> this_match_of reactive ?mt bptr (bdry ?sim1 ! j)"
    by (simp add: s1)
  from add_boundary_merge [OF k m0 later, of g2] show ?thesis
    by (simp add: s1)
qed

lemma npanels_merged:
  "Surfaces_get_npanels (Surfaces_add_new (pkt_x g2) (pkt_idx g2) (pkt_val g2)
      (Surfaces_ctor (pkt_x g1) (pkt_idx g1) (pkt_val g1) e m bp))
     = packet_npanels g1 + packet_npanels g2"
  by (simp add: Surfaces_get_npanels_def Surfaces_add_new_def Surfaces_ctor_def packet_npanels_def
                Let_def)

lemma Surfaces_add_new_kinds:
  "get_elemt (CSurfaces (Surfaces_add_new x idx val surf)) = get_elemt (CSurfaces surf)"
  "get_movet (CSurfaces (Surfaces_add_new x idx val surf)) = get_movet (CSurfaces surf)"
  "get_body_ptr (CSurfaces (Surfaces_add_new x idx val surf)) = get_body_ptr (CSurfaces surf)"
  by (simp_all add: get_elemt_def get_movet_def get_body_ptr_def Surfaces_add_new_def Let_def)

lemma collection_kind_add_new:
  "collection_kind (CSurfaces (Surfaces_add_new x idx val surf)) = collection_kind (CSurfaces surf)"
  by (simp add: collection_kind_def Surfaces_add_new_kinds)

lemma collection_kind_ctor:
  "collection_kind (CSurfaces (Surfaces_ctor x idx val e m bp)) = (True, e, m, bp)"
  by (simp add: collection_kind_def Surfaces_ctor_kinds)

lemma kind_ptrs: "map (\<lambda>k. snd (snd (snd k))) (map collection_kind colls) = map get_body_ptr colls"
  by (simp add: collection_kind_def)

lemma boundary_inv_empty: "boundary_inv []"
  by (simp add: boundary_inv_def)

lemma boundary_inv_distinct: "boundary_inv colls \<Longrightarrow> distinct (map get_body_ptr colls)"
  unfolding boundary_inv_def kind_ptrs by (rule conjunct2)

lemma boundary_inv_nth:
  assumes "boundary_inv colls" and "i < length colls"
  shows "\<exists>surf. colls ! i = CSurfaces surf"
    and "get_elemt (colls ! i) = reactive"
    and "get_movet (colls ! i) = (if get_body_ptr (colls ! i) \<noteq> None then bodybound else fixed)"
proof -
  from assms(1) have "list_all kind_ok (map collection_kind colls)"
    unfolding boundary_inv_def by (rule conjunct1)
  with assms(2) have ok: "kind_ok (collection_kind (colls ! i))"
    by (simp add: list_all_length)
  then show "\<exists>surf. colls ! i = CSurfaces surf"
    by (cases "colls ! i") (simp_all add: kind_ok_def collection_kind_def)
  from ok show "get_elemt (colls ! i) = reactive"
    by (simp add: kind_ok_def collection_kind_def)
  from ok show "get_movet (colls ! i)
                  = (if get_body_ptr (colls ! i) \<noteq> None then bodybound else fixed)"
    by (simp add: kind_ok_def collection_kind_def)
qed

lemma match_is_same_body:
  assumes "get_elemt c = reactive"
    and "get_movet c = (if get_body_ptr c \<noteq> None then bodybound else fixed)"
  shows "this_match_of reactive (if bptr \<noteq> None then bodybound else fixed) bptr c
           \<longleftrightarrow> get_body_ptr c = bptr"
proof (cases "get_body_ptr c = bptr")
  case True
  with assms show ?thesis
    by (simp add: this_match_of_iff)
next
  case False
  show ?thesis
  proof (cases bptr)
    case None
    with False have "get_body_ptr c \<noteq> None" by simp
    with assms(2) have "get_movet c = bodybound" by simp
    with None False show ?thesis
      by (simp add: this_match_of_iff)
  next
    case (Some a)
    with False show ?thesis
      by (simp add: this_match_of_iff)
  qed
qed

lemma boundary_match_nth:
  assumes "boundary_inv colls" and "i < length colls"
  shows "this_match_of reactive (if bptr \<noteq> None then bodybound else fixed) bptr (colls ! i)
           \<longleftrightarrow> get_body_ptr (colls ! i) = bptr"
  using boundary_inv_nth(2,3) [OF assms] by (rule match_is_same_body)

lemma boundary_same_body_same_index:
  assumes "boundary_inv colls" and "i < length colls" and "j < length colls"
    and "get_body_ptr (colls ! i) = get_body_ptr (colls ! j)"
  shows "i = j"
proof -
  let ?ps = "map get_body_ptr colls"
  have d: "distinct ?ps"
    using assms(1) by (rule boundary_inv_distinct)
  have "i < length ?ps" and "j < length ?ps"
    using assms(2,3) by simp_all
  with d have "?ps ! i = ?ps ! j \<longleftrightarrow> i = j"
    by (rule nth_eq_iff_index_eq)
  with assms(2,3,4) show ?thesis
    by simp
qed

lemma boundary_unique_match:
  assumes "boundary_inv colls" and "i < length colls" and "j < length colls"
    and "this_match_of reactive (if bptr \<noteq> None then bodybound else fixed) bptr (colls ! i)"
    and "this_match_of reactive (if bptr \<noteq> None then bodybound else fixed) bptr (colls ! j)"
  shows "i = j"
proof -
  from assms(4) have "get_body_ptr (colls ! i) = bptr"
    unfolding boundary_match_nth [OF assms(1,2)] .
  moreover from assms(5) have "get_body_ptr (colls ! j) = bptr"
    unfolding boundary_match_nth [OF assms(1,3)] .
  ultimately have "get_body_ptr (colls ! i) = get_body_ptr (colls ! j)"
    by simp
  with assms(1,2,3) show ?thesis
    by (rule boundary_same_body_same_index)
qed

lemma add_boundary_at_match:
  assumes "boundary_inv (bdry sim)" and "k < length (bdry sim)"
    and "this_match_of reactive (if bptr \<noteq> None then bodybound else fixed) bptr (bdry sim ! k)"
  shows "\<exists>surf. bdry sim ! k = CSurfaces surf \<and>
           add_boundary bptr geom sim =
             sim\<lparr>bdry := (bdry sim)[k :=
                    CSurfaces (Surfaces_add_new (pkt_x geom) (pkt_idx geom) (pkt_val geom) surf)]\<rparr>"
proof -
  have later: "\<forall>j. k < j \<and> j < length (bdry sim) \<longrightarrow>
                 \<not> this_match_of reactive (if bptr \<noteq> None then bodybound else fixed) bptr
                      (bdry sim ! j)"
  proof (intro allI impI notI)
    fix j
    assume j: "k < j \<and> j < length (bdry sim)"
    assume "this_match_of reactive (if bptr \<noteq> None then bodybound else fixed) bptr (bdry sim ! j)"
    with assms j have "k = j"
      by (intro boundary_unique_match [of "bdry sim" k j bptr]) simp_all
    with j show False by simp
  qed
  from boundary_inv_nth(1) [OF assms(1,2)] obtain surf where s: "bdry sim ! k = CSurfaces surf"
    by blast
  have "add_boundary bptr geom sim =
          sim\<lparr>bdry := (bdry sim)[k :=
                 CSurfaces (Surfaces_add_new (pkt_x geom) (pkt_idx geom) (pkt_val geom) surf)]\<rparr>"
    unfolding add_boundary_merge [OF assms(2,3) later] by (simp add: s)
  with s show ?thesis
    by blast
qed

lemma boundary_inv_update:
  assumes "boundary_inv colls" and "k < length colls" and "colls ! k = CSurfaces surf"
  shows "boundary_inv (colls[k := CSurfaces (Surfaces_add_new x idx val surf)])"
proof -
  have "map collection_kind (colls[k := CSurfaces (Surfaces_add_new x idx val surf)])
          = (map collection_kind colls)[k := collection_kind (CSurfaces surf)]"
    by (simp add: map_update collection_kind_add_new)
  also have "\<dots> = (map collection_kind colls)[k := map collection_kind colls ! k]"
    using assms(2,3) by simp
  also have "\<dots> = map collection_kind colls"
    by (rule list_update_id)
  finally show ?thesis
    using assms(1) by (simp only: boundary_inv_def)
qed

lemma boundary_inv_append:
  assumes "boundary_inv colls" and "bptr \<notin> set (map get_body_ptr colls)"
  shows "boundary_inv (colls @ [CSurfaces (Surfaces_ctor x idx val reactive
                                   (if bptr \<noteq> None then bodybound else fixed) bptr)])"
proof -
  from assms(1) have a: "list_all kind_ok (map collection_kind colls)"
    unfolding boundary_inv_def by (rule conjunct1)
  have d: "distinct (map get_body_ptr colls)"
    using assms(1) by (rule boundary_inv_distinct)
  have k: "kind_ok (True, reactive, (if bptr \<noteq> None then bodybound else fixed), bptr)"
    by (simp add: kind_ok_def)
  have 1: "list_all kind_ok (map collection_kind
             (colls @ [CSurfaces (Surfaces_ctor x idx val reactive
                         (if bptr \<noteq> None then bodybound else fixed) bptr)]))"
    using a k by (simp add: collection_kind_ctor)
  have 2: "distinct (map get_body_ptr
             (colls @ [CSurfaces (Surfaces_ctor x idx val reactive
                         (if bptr \<noteq> None then bodybound else fixed) bptr)]))"
    using d assms(2) by (simp add: Surfaces_ctor_kinds)
  from 1 2 show ?thesis
    unfolding boundary_inv_def kind_ptrs by (rule conjI)
qed

lemma no_match_no_body:
  assumes "boundary_inv colls"
    and "\<forall>c\<in>set colls. \<not> this_match_of reactive (if bptr \<noteq> None then bodybound else fixed) bptr c"
  shows "bptr \<notin> set (map get_body_ptr colls)"
proof
  assume "bptr \<in> set (map get_body_ptr colls)"
  then obtain i where i: "i < length colls" "get_body_ptr (colls ! i) = bptr"
    by (auto simp: in_set_conv_nth)
  then have "this_match_of reactive (if bptr \<noteq> None then bodybound else fixed) bptr (colls ! i)"
    unfolding boundary_match_nth [OF assms(1) i(1)] by simp
  moreover from i(1) have "colls ! i \<in> set colls"
    by (rule nth_mem)
  ultimately show False
    using assms(2) by blast
qed

lemma add_boundary_inv_and_bodies:
  assumes "boundary_inv (bdry sim)"
  shows "boundary_inv (bdry (add_boundary bptr geom sim))"
    and "bptr \<in> set (map get_body_ptr (bdry (add_boundary bptr geom sim)))"
    and "set (map get_body_ptr (bdry sim))
           \<subseteq> set (map get_body_ptr (bdry (add_boundary bptr geom sim)))"
proof -
  let ?P = "this_match_of reactive (if bptr \<noteq> None then bodybound else fixed) bptr"
  have "boundary_inv (bdry (add_boundary bptr geom sim)) \<and>
        bptr \<in> set (map get_body_ptr (bdry (add_boundary bptr geom sim))) \<and>
        set (map get_body_ptr (bdry sim))
           \<subseteq> set (map get_body_ptr (bdry (add_boundary bptr geom sim)))"
  proof (cases "\<forall>c\<in>set (bdry sim). \<not> ?P c")
    case True
    note nb = no_match_no_body [OF assms True]
    have e: "bdry (add_boundary bptr geom sim) =
               bdry sim @ [CSurfaces (Surfaces_ctor (pkt_x geom) (pkt_idx geom) (pkt_val geom)
                             reactive (if bptr \<noteq> None then bodybound else fixed) bptr)]"
      unfolding add_boundary_append [OF True] by simp
    have 1: "boundary_inv (bdry (add_boundary bptr geom sim))"
      unfolding e using assms nb by (rule boundary_inv_append)
    have 2: "map get_body_ptr (bdry (add_boundary bptr geom sim))
               = map get_body_ptr (bdry sim) @ [bptr]"
      unfolding e by (simp add: Surfaces_ctor_kinds)
    from 1 show ?thesis
      unfolding 2 by auto
  next
    case False
    then obtain c where c: "c \<in> set (bdry sim)" "?P c"
      by blast
    then obtain k where k: "k < length (bdry sim)" "bdry sim ! k = c"
      by (auto simp: in_set_conv_nth)
    with c(2) have m: "?P (bdry sim ! k)"
      by simp
    from add_boundary_at_match [OF assms k(1) m, of geom]
    obtain surf where s: "bdry sim ! k = CSurfaces surf"
      and e: "add_boundary bptr geom sim =
                sim\<lparr>bdry := (bdry sim)[k :=
                   CSurfaces (Surfaces_add_new (pkt_x geom) (pkt_idx geom) (pkt_val geom) surf)]\<rparr>"
      by blast
    have b: "bdry (add_boundary bptr geom sim) =
               (bdry sim)[k := CSurfaces (Surfaces_add_new (pkt_x geom) (pkt_idx geom)
                                            (pkt_val geom) surf)]"
      unfolding e by simp
    have 1: "boundary_inv (bdry (add_boundary bptr geom sim))"
      unfolding b using assms k(1) s by (rule boundary_inv_update)
    from m have pk: "get_body_ptr (bdry sim ! k) = bptr"
      unfolding boundary_match_nth [OF assms k(1)] .
    have "map get_body_ptr (bdry (add_boundary bptr geom sim))
            = (map get_body_ptr (bdry sim))[k := get_body_ptr (CSurfaces surf)]"
      unfolding b by (simp add: map_update Surfaces_add_new_kinds)
    also have "\<dots> = (map get_body_ptr (bdry sim))[k := map get_body_ptr (bdry sim) ! k]"
      using k(1) s by simp
    also have "\<dots> = map get_body_ptr (bdry sim)"
      by (rule list_update_id)
    finally have 2: "map get_body_ptr (bdry (add_boundary bptr geom sim))
                       = map get_body_ptr (bdry sim)" .
    from k(1) have "bdry sim ! k \<in> set (bdry sim)"
      by (rule nth_mem)
    then have "get_body_ptr (bdry sim ! k) \<in> set (map get_body_ptr (bdry sim))"
      by simp
    then have "bptr \<in> set (map get_body_ptr (bdry sim))"
      unfolding pk .
    with 1 show ?thesis
      unfolding 2 by simp
  qed
  then show "boundary_inv (bdry (add_boundary bptr geom sim))"
    and "bptr \<in> set (map get_body_ptr (bdry (add_boundary bptr geom sim)))"
    and "set (map get_body_ptr (bdry sim))
           \<subseteq> set (map get_body_ptr (bdry (add_boundary bptr geom sim)))"
    by blast+
qed

lemma boundary_built_inv: "boundary_built sim \<Longrightarrow> boundary_inv (bdry sim)"
proof (induction rule: boundary_built.induct)
  case (bb_empty sim)
  then show ?case by (simp add: boundary_inv_empty)
next
  case (bb_add sim bptr geom)
  from bb_add.IH show ?case by (rule add_boundary_inv_and_bodies(1))
next
  case (bb_kept sim sim')
  then show ?case by (simp only: boundary_inv_def)
qed

lemma two_bodies_two_collections:
  assumes "boundary_inv (bdry sim)" and "a \<noteq> a'"
  shows "\<exists>i j. i \<noteq> j \<and>
           i < length (bdry (add_boundary (Some a') g2 (add_boundary (Some a) g1 sim))) \<and>
           j < length (bdry (add_boundary (Some a') g2 (add_boundary (Some a) g1 sim))) \<and>
           get_body_ptr (bdry (add_boundary (Some a') g2 (add_boundary (Some a) g1 sim)) ! i)
             = Some a \<and>
           get_body_ptr (bdry (add_boundary (Some a') g2 (add_boundary (Some a) g1 sim)) ! j)
             = Some a'"
proof -
  let ?s1 = "add_boundary (Some a) g1 sim"
  let ?s2 = "add_boundary (Some a') g2 ?s1"
  note f1 = add_boundary_inv_and_bodies [OF assms(1), of "Some a" g1]
  note f2 = add_boundary_inv_and_bodies [OF f1(1), of "Some a'" g2]
  from f1(2) f2(3) have "Some a \<in> set (map get_body_ptr (bdry ?s2))"
    by blast
  then obtain i where i: "i < length (bdry ?s2)" "get_body_ptr (bdry ?s2 ! i) = Some a"
    by (auto simp: in_set_conv_nth)
  from f2(2) obtain j where j: "j < length (bdry ?s2)" "get_body_ptr (bdry ?s2 ! j) = Some a'"
    by (auto simp: in_set_conv_nth)
  from i(2) j(2) assms(2) have "i \<noteq> j"
    by auto
  with i j show ?thesis
    by blast
qed

text \<open>
  C1. On every boundary list the program can hold, \<^verbatim>\<open>add_boundary(body, geometry)\<close>
  merges the geometry into an existing collection when, and only when, that collection
  has the element kind reactive, the incoming motion kind (body-bound when a body pointer
  is given, fixed otherwise) and, when the motion kind is body-bound, the given body
  pointer; otherwise it appends a new collection holding the geometry. At most one
  collection of such a list satisfies the predicate, so the first match in list order is
  the collection that receives the geometry, and the list built stays one the program can
  hold. Two body-bound insertions with different body pointers leave two distinct
  collections, one for each body (from an empty list: exactly these two); two insertions
  with the same body pointer into an empty list leave exactly one collection, whose panel
  count is the sum of the two packets' panel counts.
\<close>

theorem C1_add_boundary_matching:
  fixes sim :: "('r, 'b, 'c) Simulation"
  assumes "boundary_built sim"
  shows
  "(this_match_of reactive (if bptr \<noteq> None then bodybound else fixed) bptr c \<longleftrightarrow>
      get_elemt c = reactive \<and> get_movet c = (if bptr \<noteq> None then bodybound else fixed) \<and>
      (bptr \<noteq> None \<longrightarrow> get_body_ptr c = bptr)) \<and>
   ((\<forall>c\<in>set (bdry sim).
        \<not> this_match_of reactive (if bptr \<noteq> None then bodybound else fixed) bptr c) \<longrightarrow>
      add_boundary bptr geom sim =
        sim\<lparr>bdry := bdry sim @
               [CSurfaces (Surfaces_ctor (pkt_x geom) (pkt_idx geom) (pkt_val geom) reactive
                             (if bptr \<noteq> None then bodybound else fixed) bptr)]\<rparr>) \<and>
   (k < length (bdry sim) \<and>
    this_match_of reactive (if bptr \<noteq> None then bodybound else fixed) bptr (bdry sim ! k) \<and>
    (\<forall>j<k. \<not> this_match_of reactive (if bptr \<noteq> None then bodybound else fixed) bptr
               (bdry sim ! j)) \<longrightarrow>
      (\<exists>surf. bdry sim ! k = CSurfaces surf \<and>
         add_boundary bptr geom sim =
           sim\<lparr>bdry := (bdry sim)[k :=
                  CSurfaces (Surfaces_add_new (pkt_x geom) (pkt_idx geom) (pkt_val geom) surf)]\<rparr>)) \<and>
   (i < length (bdry sim) \<and> j < length (bdry sim) \<and>
    this_match_of reactive (if bptr \<noteq> None then bodybound else fixed) bptr (bdry sim ! i) \<and>
    this_match_of reactive (if bptr \<noteq> None then bodybound else fixed) bptr (bdry sim ! j)
      \<longrightarrow> i = j) \<and>
   boundary_built (add_boundary bptr geom sim) \<and>
   (a \<noteq> a' \<longrightarrow>
      (\<exists>i j. i \<noteq> j \<and>
         i < length (bdry (add_boundary (Some a') g2 (add_boundary (Some a) g1 sim))) \<and>
         j < length (bdry (add_boundary (Some a') g2 (add_boundary (Some a) g1 sim))) \<and>
         get_body_ptr (bdry (add_boundary (Some a') g2 (add_boundary (Some a) g1 sim)) ! i)
           = Some a \<and>
         get_body_ptr (bdry (add_boundary (Some a') g2 (add_boundary (Some a) g1 sim)) ! j)
           = Some a')) \<and>
   (bdry sim = [] \<and> a \<noteq> a' \<longrightarrow>
      bdry (add_boundary (Some a') g2 (add_boundary (Some a) g1 sim)) =
        [CSurfaces (Surfaces_ctor (pkt_x g1) (pkt_idx g1) (pkt_val g1) reactive bodybound (Some a)),
         CSurfaces (Surfaces_ctor (pkt_x g2) (pkt_idx g2) (pkt_val g2) reactive bodybound (Some a'))]) \<and>
   (bdry sim = [] \<longrightarrow>
      (\<exists>surf. bdry (add_boundary bptr g2 (add_boundary bptr g1 sim)) = [CSurfaces surf] \<and>
              Surfaces_get_npanels surf = packet_npanels g1 + packet_npanels g2) \<and>
      get_npanels (add_boundary bptr g2 (add_boundary bptr g1 sim))
        = packet_npanels g1 + packet_npanels g2)"
proof -
  note inv = boundary_built_inv [OF assms]
  have 1: "this_match_of reactive (if bptr \<noteq> None then bodybound else fixed) bptr c \<longleftrightarrow>
          get_elemt c = reactive \<and> get_movet c = (if bptr \<noteq> None then bodybound else fixed) \<and>
          (bptr \<noteq> None \<longrightarrow> get_body_ptr c = bptr)"
    by (simp add: this_match_of_iff)
  have 2: "(\<forall>c\<in>set (bdry sim).
        \<not> this_match_of reactive (if bptr \<noteq> None then bodybound else fixed) bptr c) \<longrightarrow>
      add_boundary bptr geom sim =
        sim\<lparr>bdry := bdry sim @
               [CSurfaces (Surfaces_ctor (pkt_x geom) (pkt_idx geom) (pkt_val geom) reactive
                             (if bptr \<noteq> None then bodybound else fixed) bptr)]\<rparr>"
    by (intro impI add_boundary_append)
  have 3: "k < length (bdry sim) \<and>
    this_match_of reactive (if bptr \<noteq> None then bodybound else fixed) bptr (bdry sim ! k) \<and>
    (\<forall>j<k. \<not> this_match_of reactive (if bptr \<noteq> None then bodybound else fixed) bptr
               (bdry sim ! j)) \<longrightarrow>
      (\<exists>surf. bdry sim ! k = CSurfaces surf \<and>
         add_boundary bptr geom sim =
           sim\<lparr>bdry := (bdry sim)[k :=
                  CSurfaces (Surfaces_add_new (pkt_x geom) (pkt_idx geom) (pkt_val geom) surf)]\<rparr>)"
  proof
    assume h: "k < length (bdry sim) \<and>
      this_match_of reactive (if bptr \<noteq> None then bodybound else fixed) bptr (bdry sim ! k) \<and>
      (\<forall>j<k. \<not> this_match_of reactive (if bptr \<noteq> None then bodybound else fixed) bptr
                 (bdry sim ! j))"
    then have hk: "k < length (bdry sim)"
      and hm: "this_match_of reactive (if bptr \<noteq> None then bodybound else fixed) bptr
                 (bdry sim ! k)"
      by blast+
    from inv hk hm show "\<exists>surf. bdry sim ! k = CSurfaces surf \<and>
         add_boundary bptr geom sim =
           sim\<lparr>bdry := (bdry sim)[k :=
                  CSurfaces (Surfaces_add_new (pkt_x geom) (pkt_idx geom) (pkt_val geom) surf)]\<rparr>"
      by (rule add_boundary_at_match)
  qed
  have 4: "i < length (bdry sim) \<and> j < length (bdry sim) \<and>
    this_match_of reactive (if bptr \<noteq> None then bodybound else fixed) bptr (bdry sim ! i) \<and>
    this_match_of reactive (if bptr \<noteq> None then bodybound else fixed) bptr (bdry sim ! j)
      \<longrightarrow> i = j"
  proof
    assume "i < length (bdry sim) \<and> j < length (bdry sim) \<and>
      this_match_of reactive (if bptr \<noteq> None then bodybound else fixed) bptr (bdry sim ! i) \<and>
      this_match_of reactive (if bptr \<noteq> None then bodybound else fixed) bptr (bdry sim ! j)"
    with inv show "i = j"
      by (intro boundary_unique_match [of "bdry sim" i j bptr]) simp_all
  qed
  have 5: "boundary_built (add_boundary bptr geom sim)"
    using assms by (rule bb_add)
  have 6: "a \<noteq> a' \<longrightarrow>
      (\<exists>i j. i \<noteq> j \<and>
         i < length (bdry (add_boundary (Some a') g2 (add_boundary (Some a) g1 sim))) \<and>
         j < length (bdry (add_boundary (Some a') g2 (add_boundary (Some a) g1 sim))) \<and>
         get_body_ptr (bdry (add_boundary (Some a') g2 (add_boundary (Some a) g1 sim)) ! i)
           = Some a \<and>
         get_body_ptr (bdry (add_boundary (Some a') g2 (add_boundary (Some a) g1 sim)) ! j)
           = Some a')"
    using two_bodies_two_collections [OF inv] by (intro impI)
  have 7: "bdry sim = [] \<and> a \<noteq> a' \<longrightarrow>
      bdry (add_boundary (Some a') g2 (add_boundary (Some a) g1 sim)) =
        [CSurfaces (Surfaces_ctor (pkt_x g1) (pkt_idx g1) (pkt_val g1) reactive bodybound (Some a)),
         CSurfaces (Surfaces_ctor (pkt_x g2) (pkt_idx g2) (pkt_val g2) reactive bodybound (Some a'))]"
  proof
    assume "bdry sim = [] \<and> a \<noteq> a'"
    then have "bdry sim = []" "a \<noteq> a'"
      by simp_all
    then show "bdry (add_boundary (Some a') g2 (add_boundary (Some a) g1 sim)) =
        [CSurfaces (Surfaces_ctor (pkt_x g1) (pkt_idx g1) (pkt_val g1) reactive bodybound (Some a)),
         CSurfaces (Surfaces_ctor (pkt_x g2) (pkt_idx g2) (pkt_val g2) reactive bodybound (Some a'))]"
      by (rule add_boundary_two_bodies)
  qed
  have 8: "bdry sim = [] \<longrightarrow>
      (\<exists>surf. bdry (add_boundary bptr g2 (add_boundary bptr g1 sim)) = [CSurfaces surf] \<and>
              Surfaces_get_npanels surf = packet_npanels g1 + packet_npanels g2) \<and>
      get_npanels (add_boundary bptr g2 (add_boundary bptr g1 sim))
        = packet_npanels g1 + packet_npanels g2"
  proof
    assume e: "bdry sim = []"
    have x: "\<exists>surf. bdry (add_boundary bptr g2 (add_boundary bptr g1 sim)) = [CSurfaces surf] \<and>
              Surfaces_get_npanels surf = packet_npanels g1 + packet_npanels g2"
      unfolding add_boundary_same_body [OF e] by (simp add: npanels_merged)
    have y: "get_npanels (add_boundary bptr g2 (add_boundary bptr g1 sim))
          = packet_npanels g1 + packet_npanels g2"
      unfolding get_npanels_def add_boundary_same_body [OF e]
      by (simp add: npanels_merged)
    from x y show "(\<exists>surf. bdry (add_boundary bptr g2 (add_boundary bptr g1 sim)) = [CSurfaces surf] \<and>
              Surfaces_get_npanels surf = packet_npanels g1 + packet_npanels g2) \<and>
      get_npanels (add_boundary bptr g2 (add_boundary bptr g1 sim))
        = packet_npanels g1 + packet_npanels g2"
      by (rule conjI)
  qed
  from 1 2 3 4 5 6 7 8 show ?thesis
    by (intro conjI)
qed

lemma fresh_sim_bdry: "bdry fresh_sim = []"
  by (simp add: fresh_sim_def Simulation_ctor_def)

lemma fresh_sim_wall:
  "add_boundary None panel_one fresh_sim = fresh_sim\<lparr>bdry := [surf_of panel_one fixed None]\<rparr>"
  using add_boundary_first [OF fresh_sim_bdry, of None panel_one] by (simp add: surf_of_def)

lemma surf_of_match:
  "this_match_of reactive m' bp' (surf_of g m bp) \<longleftrightarrow> m = m' \<and> (m' = bodybound \<longrightarrow> bp = bp')"
  by (simp add: this_match_of_iff surf_of_def Surfaces_ctor_kinds)

lemma sim_wall_and_body_bdry:
  "bdry sim_wall_and_body = [surf_of panel_one fixed None, surf_of panel_two bodybound (Some 0)]"
proof -
  have "\<forall>c\<in>set (bdry (add_boundary None panel_one fresh_sim)).
          \<not> this_match_of reactive (if Some (0::nat) \<noteq> None then bodybound else fixed) (Some 0) c"
    by (simp add: fresh_sim_wall surf_of_match)
  from add_boundary_append [OF this, of panel_two] show ?thesis
    by (simp add: sim_wall_and_body_def fresh_sim_wall surf_of_def)
qed

lemma sim_wall_and_body_built: "boundary_built sim_wall_and_body"
  unfolding sim_wall_and_body_def
  by (intro bb_add bb_empty fresh_sim_bdry)

theorem C1_add_boundary_matching_witness:
  "boundary_built fresh_sim \<and>
   add_boundary None panel_one fresh_sim = fresh_sim\<lparr>bdry := [surf_of panel_one fixed None]\<rparr> \<and>
   boundary_built sim_wall_and_body \<and>
   bdry sim_wall_and_body = [surf_of panel_one fixed None, surf_of panel_two bodybound (Some 0)] \<and>
   \<not> this_match_of reactive bodybound (Some 0) (bdry sim_wall_and_body ! 0) \<and>
   this_match_of reactive bodybound (Some 0) (bdry sim_wall_and_body ! 1) \<and>
   add_boundary (Some 0) panel_one sim_wall_and_body =
     sim_wall_and_body\<lparr>bdry :=
       [surf_of panel_one fixed None,
        CSurfaces (Surfaces_add_new (pkt_x panel_one) (pkt_idx panel_one) (pkt_val panel_one)
           (Surfaces_ctor (pkt_x panel_two) (pkt_idx panel_two) (pkt_val panel_two)
              reactive bodybound (Some 0)))]\<rparr> \<and>
   this_match_of reactive fixed None (bdry sim_wall_and_body ! 0) \<and>
   add_boundary None panel_two sim_wall_and_body =
     sim_wall_and_body\<lparr>bdry :=
       [CSurfaces (Surfaces_add_new (pkt_x panel_two) (pkt_idx panel_two) (pkt_val panel_two)
           (Surfaces_ctor (pkt_x panel_one) (pkt_idx panel_one) (pkt_val panel_one)
              reactive fixed None)),
        surf_of panel_two bodybound (Some 0)]\<rparr> \<and>
   (0::nat) \<noteq> 1 \<and>
   length (bdry (add_boundary (Some 1) panel_two (add_boundary (Some 0) panel_one fresh_sim))) = 2 \<and>
   get_npanels (add_boundary (Some 0) panel_two (add_boundary (Some 0) panel_one fresh_sim)) = 3"
proof -
  have bf: "boundary_built fresh_sim"
    using fresh_sim_bdry by (rule bb_empty)
  note bw = sim_wall_and_body_built
  note A = C1_add_boundary_matching
             [OF bf, where bptr = None and geom = panel_one,
              THEN conjunct2, THEN conjunct1]
  note B = C1_add_boundary_matching
             [OF bw, where bptr = "Some 0" and geom = panel_one and k = 1,
              THEN conjunct2, THEN conjunct2, THEN conjunct1]
  note B0 = C1_add_boundary_matching
             [OF bw, where bptr = None and geom = panel_two and k = 0,
              THEN conjunct2, THEN conjunct2, THEN conjunct1]
  note C = C1_add_boundary_matching
             [OF bf, where a = 0 and a' = 1 and ?g1.0 = panel_one and ?g2.0 = panel_two,
              THEN conjunct2, THEN conjunct2, THEN conjunct2, THEN conjunct2, THEN conjunct2,
              THEN conjunct2, THEN conjunct1]
  note D = C1_add_boundary_matching
             [OF bf, where bptr = "Some 0" and ?g1.0 = panel_one and ?g2.0 = panel_two,
              THEN conjunct2, THEN conjunct2, THEN conjunct2, THEN conjunct2, THEN conjunct2,
              THEN conjunct2, THEN conjunct2]
  have a: "add_boundary None panel_one fresh_sim
             = fresh_sim\<lparr>bdry := [surf_of panel_one fixed None]\<rparr>"
    using A by (simp add: fresh_sim_bdry surf_of_def)
  have n0: "\<not> this_match_of reactive bodybound (Some 0) (bdry sim_wall_and_body ! 0)"
    by (simp add: sim_wall_and_body_bdry surf_of_match)
  have m1: "this_match_of reactive bodybound (Some 0) (bdry sim_wall_and_body ! 1)"
    by (simp add: sim_wall_and_body_bdry surf_of_match)
  have m0: "this_match_of reactive fixed None (bdry sim_wall_and_body ! 0)"
    by (simp add: sim_wall_and_body_bdry surf_of_match)
  have k1: "(1::nat) < length (bdry sim_wall_and_body)"
    by (simp add: sim_wall_and_body_bdry)
  have k0: "(0::nat) < length (bdry sim_wall_and_body)"
    by (simp add: sim_wall_and_body_bdry)
  have e1: "\<forall>j<(1::nat). \<not> this_match_of reactive bodybound (Some 0) (bdry sim_wall_and_body ! j)"
    using n0 by simp
  from B k1 m1 e1 obtain surf where
    s: "bdry sim_wall_and_body ! 1 = CSurfaces surf" and
    r: "add_boundary (Some 0) panel_one sim_wall_and_body =
          sim_wall_and_body\<lparr>bdry := (bdry sim_wall_and_body)[1 :=
             CSurfaces (Surfaces_add_new (pkt_x panel_one) (pkt_idx panel_one)
                          (pkt_val panel_one) surf)]\<rparr>"
    by auto
  from s have "surf = Surfaces_ctor (pkt_x panel_two) (pkt_idx panel_two) (pkt_val panel_two)
                         reactive bodybound (Some 0)"
    by (simp add: sim_wall_and_body_bdry surf_of_def)
  with r have b: "add_boundary (Some 0) panel_one sim_wall_and_body =
     sim_wall_and_body\<lparr>bdry :=
       [surf_of panel_one fixed None,
        CSurfaces (Surfaces_add_new (pkt_x panel_one) (pkt_idx panel_one) (pkt_val panel_one)
           (Surfaces_ctor (pkt_x panel_two) (pkt_idx panel_two) (pkt_val panel_two)
              reactive bodybound (Some 0)))]\<rparr>"
    by (simp add: sim_wall_and_body_bdry)
  from B0 k0 m0 obtain surf0 where
    s0: "bdry sim_wall_and_body ! 0 = CSurfaces surf0" and
    r0: "add_boundary None panel_two sim_wall_and_body =
          sim_wall_and_body\<lparr>bdry := (bdry sim_wall_and_body)[0 :=
             CSurfaces (Surfaces_add_new (pkt_x panel_two) (pkt_idx panel_two)
                          (pkt_val panel_two) surf0)]\<rparr>"
    by auto
  from s0 have "surf0 = Surfaces_ctor (pkt_x panel_one) (pkt_idx panel_one) (pkt_val panel_one)
                         reactive fixed None"
    by (simp add: sim_wall_and_body_bdry surf_of_def)
  with r0 have b0: "add_boundary None panel_two sim_wall_and_body =
     sim_wall_and_body\<lparr>bdry :=
       [CSurfaces (Surfaces_add_new (pkt_x panel_two) (pkt_idx panel_two) (pkt_val panel_two)
           (Surfaces_ctor (pkt_x panel_one) (pkt_idx panel_one) (pkt_val panel_one)
              reactive fixed None)),
        surf_of panel_two bodybound (Some 0)]\<rparr>"
    by (simp add: sim_wall_and_body_bdry)
  have c: "length (bdry (add_boundary (Some 1) panel_two
                     (add_boundary (Some 0) panel_one fresh_sim))) = 2"
    using C by (simp add: fresh_sim_bdry)
  have "packet_npanels panel_one + packet_npanels panel_two = 3"
    by (simp add: packet_npanels_def panel_one_def panel_two_def)
  with D have d: "get_npanels (add_boundary (Some 0) panel_two
                    (add_boundary (Some 0) panel_one fresh_sim)) = 3"
    by (simp add: fresh_sim_bdry)
  have z: "(0::nat) \<noteq> 1"
    by simp
  from bf a bw sim_wall_and_body_bdry n0 m1 b m0 b0 z c d show ?thesis
    by (intro conjI)
qed

section \<open>The step and its clock: proofs\<close>

lemma step_returns_iff:
  "step K F sim = Returns u sim' \<longleftrightarrow>
     (\<exists>d v b m h c v' b' p' m' h'.
        diff_step K (time sim) (dt sim) (re sim) (get_vdelta F sim)
          (vec_at (fs sim) 0, vec_at (fs sim) 1)
          (diff sim, vort sim, bdry sim, bem sim, body_store sim) = Returns () (d, v, b, m, h) \<and>
        advect_2nd K (time sim) (dt sim) (vec_at (fs sim) 0, vec_at (fs sim) 1)
          (conv sim, v, b, fldpt sim, m, h) = Returns () (c, v', b', p', m', h') \<and>
        sim' = sim\<lparr>diff := d, conv := c, vort := v', bdry := b', fldpt := p', bem := m',
                    body_store := h', time := time sim + dt sim\<rparr>)"
proof (cases "diff_step K (time sim) (dt sim) (re sim) (get_vdelta F sim)
                (vec_at (fs sim) 0, vec_at (fs sim) 1)
                (diff sim, vort sim, bdry sim, bem sim, body_store sim)")
  case (Returns u1 w)
  obtain d v b m h where w: "w = (d, v, b, m, h)"
    by (cases w) auto
  show ?thesis
  proof (cases "advect_2nd K (time sim) (dt sim) (vec_at (fs sim) 0, vec_at (fs sim) 1)
                  (conv sim, v, b, fldpt sim, m, h)")
    case (Returns u2 w2)
    obtain c v' b' p' m' h' where w2: "w2 = (c, v', b', p', m', h')"
      by (cases w2) auto
    from \<open>diff_step K _ _ _ _ _ _ = Returns u1 w\<close> Returns show ?thesis
      unfolding step_def Let_def w w2 by auto
  next
    case (Throws e w2)
    obtain c v' b' p' m' h' where w2: "w2 = (c, v', b', p', m', h')"
      by (cases w2) auto
    from \<open>diff_step K _ _ _ _ _ _ = Returns u1 w\<close> Throws show ?thesis
      unfolding step_def Let_def w w2 by simp
  next
    case (Fatal f)
    from \<open>diff_step K _ _ _ _ _ _ = Returns u1 w\<close> Fatal show ?thesis
      unfolding step_def Let_def w by simp
  qed
next
  case (Throws e w)
  obtain d v b m h where w: "w = (d, v, b, m, h)"
    by (cases w) auto
  from Throws show ?thesis
    unfolding step_def Let_def w by simp
next
  case (Fatal f)
  then show ?thesis
    unfolding step_def Let_def by simp
qed

lemma step_keeps_Returns:
  assumes "step K F sim = Returns u sim'"
  shows "time sim' = time sim + dt sim" and "dt sim' = dt sim" and "re sim' = re sim"
    and "fs sim' = fs sim" and "bodies sim' = bodies sim"
    and "stepfuture sim' = stepfuture sim"
    and "step_has_started sim' = step_has_started sim"
    and "step_is_finished sim' = step_is_finished sim"
  using assms unfolding step_returns_iff by auto

lemma step_keeps_Throws:
  assumes "step K F sim = Throws e sim'"
  shows "bodies sim' = bodies sim" and "stepfuture sim' = stepfuture sim"
    and "step_has_started sim' = step_has_started sim"
    and "step_is_finished sim' = step_is_finished sim"
    and "time sim' = time sim"
  using assms unfolding step_def Let_def
  by (auto split: result.splits prod.splits)

lemma run_steps_clock:
  assumes "run_steps K F n sim = Returns u sim'"
  shows "dt sim' = dt sim \<and> time sim' = ((\<lambda>t. t + dt sim) ^^ n) (time sim)"
  using assms
proof (induction n arbitrary: sim)
  case 0
  then show ?case by simp
next
  case (Suc n)
  from Suc.prems obtain sim1 where
    s1: "step K F sim = Returns () sim1" and r: "run_steps K F n sim1 = Returns u sim'"
    by (auto split: result.splits)
  note k = step_keeps_Returns(1,2) [OF s1]
  from Suc.IH [OF r] have "dt sim' = dt sim1"
    and t: "time sim' = ((\<lambda>t. t + dt sim1) ^^ n) (time sim1)"
    by simp_all
  then have d: "dt sim' = dt sim"
    using k(2) by simp
  have "time sim' = ((\<lambda>t. t + dt sim) ^^ n) (time sim + dt sim)"
    using t k by simp
  also have "\<dots> = ((\<lambda>t. t + dt sim) ^^ Suc n) (time sim)"
    using funpow_swap1 [of "\<lambda>t. t + dt sim" n "time sim"] by simp
  finally show ?case
    using d by simp
qed

text \<open>
  C5. \<^verbatim>\<open>step()\<close> returns exactly when the diffusion pass, called once with the current
  time, the full step \<open>dt\<close>, \<open>re\<close>, \<^verbatim>\<open>get_vdelta()\<close>, the freestream and the current
  collections, returns, and the second-order convection pass, called once on what the
  diffusion pass left, returns; the state it leaves is the one the convection pass left,
  with the clock advanced by adding \<open>dt\<close> once. After \<open>n\<close> steps that returned the clock
  is the old clock with \<open>dt\<close> added \<open>n\<close> times, and \<open>dt\<close> is unchanged.
\<close>

theorem C5_step_diffuse_then_convect:
  "(step K F sim = Returns () sim' \<longleftrightarrow>
     (\<exists>d v b m h c v' b' p' m' h'.
        diff_step K (time sim) (dt sim) (re sim) (get_vdelta F sim)
          (vec_at (fs sim) 0, vec_at (fs sim) 1)
          (diff sim, vort sim, bdry sim, bem sim, body_store sim) = Returns () (d, v, b, m, h) \<and>
        advect_2nd K (time sim) (dt sim) (vec_at (fs sim) 0, vec_at (fs sim) 1)
          (conv sim, v, b, fldpt sim, m, h) = Returns () (c, v', b', p', m', h') \<and>
        sim' = sim\<lparr>diff := d, conv := c, vort := v', bdry := b', fldpt := p', bem := m',
                    body_store := h', time := time sim + dt sim\<rparr>)) \<and>
   (run_steps K F n sim = Returns () sim'' \<longrightarrow>
      dt sim'' = dt sim \<and> time sim'' = ((\<lambda>t. t + dt sim) ^^ n) (time sim))"
  using step_returns_iff [of K F sim "()" sim'] run_steps_clock [of K F n sim "()" sim'']
  by blast

theorem C5_step_diffuse_then_convect_witness:
  "step kernels_logging cmath_real logging_sim =
     Returns () (logging_sim\<lparr>bem := [(''diff.step'', 1 / 100), (''conv.advect_2nd'', 1 / 100)],
                              time := 1 / 100\<rparr>) \<and>
   run_steps kernels_logging cmath_real 2 logging_sim =
     Returns () (logging_sim\<lparr>bem := [(''diff.step'', 1 / 100), (''conv.advect_2nd'', 1 / 100),
                                      (''diff.step'', 1 / 100), (''conv.advect_2nd'', 1 / 100)],
                              time := 1 / 100 + 1 / 100\<rparr>) \<and>
   time (logging_sim\<lparr>time := 1 / 100 + 1 / 100\<rparr>)
     = ((\<lambda>t. t + dt logging_sim) ^^ 2) (time logging_sim)"
proof -
  let ?s1 = "logging_sim\<lparr>bem := [(''diff.step'', 1 / 100), (''conv.advect_2nd'', 1 / 100)],
                         time := 1 / 100\<rparr>"
  let ?s2 = "logging_sim\<lparr>bem := [(''diff.step'', 1 / 100), (''conv.advect_2nd'', 1 / 100),
                                  (''diff.step'', 1 / 100), (''conv.advect_2nd'', 1 / 100)],
                         time := 1 / 100 + 1 / 100\<rparr>"
  have f: "dt logging_sim = 1 / 100" "time logging_sim = 0" "bem logging_sim = []"
    by (simp_all add: logging_sim_def Simulation_ctor_def cmath_real_def)
  have a: "step kernels_logging cmath_real logging_sim = Returns () ?s1"
    unfolding C5_step_diffuse_then_convect [THEN conjunct1]
    by (simp add: kernels_logging_def f)
  have b: "step kernels_logging cmath_real ?s1 = Returns () ?s2"
    unfolding C5_step_diffuse_then_convect [THEN conjunct1]
    by (simp add: kernels_logging_def f)
  have r: "run_steps kernels_logging cmath_real 2 logging_sim = Returns () ?s2"
    by (simp add: numeral_2_eq_2 a b)
  from C5_step_diffuse_then_convect [THEN conjunct2, of kernels_logging cmath_real 2 logging_sim ?s2] r
  have "time ?s2 = ((\<lambda>t. t + dt logging_sim) ^^ 2) (time logging_sim)"
    by blast
  then have "time (logging_sim\<lparr>time := 1 / 100 + 1 / 100\<rparr>)
               = ((\<lambda>t. t + dt logging_sim) ^^ 2) (time logging_sim)"
    by simp
  with a r show ?thesis by blast
qed

section \<open>The stepping state machine and reset: proofs\<close>

lemma future_get_Ready_None:
  "stepfuture sim = Ready None \<Longrightarrow> future_get K F sim = Returns () (sim\<lparr>stepfuture := NoState\<rparr>)"
  by (simp add: future_get_def future_wait_def)

lemma future_get_Ready_Some:
  "stepfuture sim = Ready (Some e) \<Longrightarrow> future_get K F sim = Throws e (sim\<lparr>stepfuture := NoState\<rparr>)"
  by (simp add: future_get_def future_wait_def)

lemma poll_not_started:
  "\<not> step_has_started sim \<Longrightarrow> test_for_new_results K F sim = Returns True sim"
  by (simp add: test_for_new_results_def)

lemma poll_ready_ok:
  assumes "step_has_started sim" and "stepfuture sim = Ready None"
  shows "test_for_new_results K F sim =
           Returns True (sim\<lparr>stepfuture := NoState, step_is_finished := True,
                              step_has_started := False\<rparr>)"
  using assms
  by (simp add: test_for_new_results_def is_future_ready_def future_valid_def
                future_get_Ready_None)

lemma poll_ready_failed:
  assumes "step_has_started sim" and "stepfuture sim = Ready (Some e)"
  shows "test_for_new_results K F sim = Throws e (sim\<lparr>stepfuture := NoState\<rparr>)"
  using assms
  by (simp add: test_for_new_results_def is_future_ready_def future_valid_def
                future_get_Ready_Some)

lemma poll_not_ready:
  assumes "step_has_started sim" and "stepfuture sim = Running \<or> stepfuture sim = NoState"
  shows "test_for_new_results K F sim = Returns False sim"
  using assms
  by (auto simp: test_for_new_results_def is_future_ready_def future_valid_def)

lemma poll_true_again:
  assumes "test_for_new_results K F sim = Returns True sim'"
  shows "test_for_new_results K F sim' = Returns True sim'"
proof (cases "step_has_started sim")
  case False
  with assms have "sim' = sim"
    by (simp add: poll_not_started)
  with False show ?thesis
    by (simp add: poll_not_started)
next
  case True
  show ?thesis
  proof (cases "stepfuture sim")
    case NoState
    with True assms show ?thesis
      by (simp add: poll_not_ready)
  next
    case Running
    with True assms show ?thesis
      by (simp add: poll_not_ready)
  next
    case (Ready r)
    show ?thesis
    proof (cases r)
      case None
      with True Ready assms have "\<not> step_has_started sim'"
        by (auto simp: poll_ready_ok)
      then show ?thesis
        by (rule poll_not_started)
    next
      case (Some e)
      with True Ready assms show ?thesis
        by (simp add: poll_ready_failed)
    qed
  qed
qed

lemma worker_finishes_ok:
  assumes "stepfuture sim = Running" and "step K F sim = Returns () sim1"
  shows "worker_finishes K F sim = Returns () (sim1\<lparr>stepfuture := Ready None\<rparr>)"
  using assms by (simp add: worker_finishes_def)

lemma worker_finishes_failed:
  assumes "stepfuture sim = Running" and "step K F sim = Throws e sim1"
  shows "worker_finishes K F sim = Returns () (sim1\<lparr>stepfuture := Ready (Some e)\<rparr>)"
  using assms by (simp add: worker_finishes_def)

lemma async_step_launch:
  assumes "stepfuture sim \<noteq> Running"
  shows "async_step sim = Returns () (sim\<lparr>step_has_started := True, stepfuture := Running\<rparr>)"
  using assms by (simp add: async_step_def Let_def)

text \<open>
  C3. \<^verbatim>\<open>test_for_new_results\<close>: with no step started it returns true and changes
  nothing. With a step started whose future is ready, it takes the result: if the step
  ended normally it releases the future, sets the step-finished flag, clears the
  step-started flag and returns true; if the step ended with an exception, the exception
  leaves \<^verbatim>\<open>test_for_new_results\<close> (and nothing else did raise it before: the worker
  stored it in the future). With a step started whose future is still running (or has
  no shared state) it returns false and changes nothing. Whenever it has returned true,
  calling it again at once returns true and changes nothing, so no step is started by
  it. From a state with no step running: \<^verbatim>\<open>async_step\<close> starts one; polling before the
  worker has finished gives false; once the worker has finished a step that ended
  normally, the poll gives true, and the next poll gives true again in the same state,
  where no future is held and the clock has advanced by one \<open>dt\<close>.
\<close>

theorem C3_test_for_new_results:
  "(\<not> step_has_started sim \<longrightarrow> test_for_new_results K F sim = Returns True sim) \<and>
   (step_has_started sim \<and> stepfuture sim = Ready None \<longrightarrow>
      test_for_new_results K F sim =
        Returns True (sim\<lparr>stepfuture := NoState, step_is_finished := True,
                           step_has_started := False\<rparr>)) \<and>
   (step_has_started sim \<and> stepfuture sim = Ready (Some e) \<longrightarrow>
      test_for_new_results K F sim = Throws e (sim\<lparr>stepfuture := NoState\<rparr>) \<and>
      (stepfuture sim0 = Running \<and> step K F sim0 = Throws e sim1 \<longrightarrow>
         worker_finishes K F sim0 = Returns () (sim1\<lparr>stepfuture := Ready (Some e)\<rparr>))) \<and>
   (step_has_started sim \<and> (stepfuture sim = Running \<or> stepfuture sim = NoState) \<longrightarrow>
      test_for_new_results K F sim = Returns False sim) \<and>
   (test_for_new_results K F sim = Returns True sim' \<longrightarrow>
      test_for_new_results K F sim' = Returns True sim') \<and>
   (stepfuture sim \<noteq> Running \<and>
    step K F (sim\<lparr>step_has_started := True, stepfuture := Running\<rparr>) = Returns () sim2 \<longrightarrow>
      async_step sim = Returns () (sim\<lparr>step_has_started := True, stepfuture := Running\<rparr>) \<and>
      test_for_new_results K F (sim\<lparr>step_has_started := True, stepfuture := Running\<rparr>)
        = Returns False (sim\<lparr>step_has_started := True, stepfuture := Running\<rparr>) \<and>
      worker_finishes K F (sim\<lparr>step_has_started := True, stepfuture := Running\<rparr>)
        = Returns () (sim2\<lparr>stepfuture := Ready None\<rparr>) \<and>
      test_for_new_results K F (sim2\<lparr>stepfuture := Ready None\<rparr>)
        = Returns True (sim2\<lparr>stepfuture := NoState, step_is_finished := True,
                             step_has_started := False\<rparr>) \<and>
      test_for_new_results K F (sim2\<lparr>stepfuture := NoState, step_is_finished := True,
                                      step_has_started := False\<rparr>)
        = Returns True (sim2\<lparr>stepfuture := NoState, step_is_finished := True,
                             step_has_started := False\<rparr>) \<and>
      time sim2 = time sim + dt sim)"
proof (intro conjI impI)
  assume "\<not> step_has_started sim"
  then show "test_for_new_results K F sim = Returns True sim"
    by (rule poll_not_started)
next
  assume "step_has_started sim \<and> stepfuture sim = Ready None"
  then show "test_for_new_results K F sim =
        Returns True (sim\<lparr>stepfuture := NoState, step_is_finished := True,
                           step_has_started := False\<rparr>)"
    by (simp add: poll_ready_ok)
next
  assume "step_has_started sim \<and> stepfuture sim = Ready (Some e)"
  then show "test_for_new_results K F sim = Throws e (sim\<lparr>stepfuture := NoState\<rparr>)"
    by (simp add: poll_ready_failed)
next
  assume "stepfuture sim0 = Running \<and> step K F sim0 = Throws e sim1"
  then show "worker_finishes K F sim0 = Returns () (sim1\<lparr>stepfuture := Ready (Some e)\<rparr>)"
    by (simp add: worker_finishes_failed)
next
  assume "step_has_started sim \<and> (stepfuture sim = Running \<or> stepfuture sim = NoState)"
  then show "test_for_new_results K F sim = Returns False sim"
    by (simp add: poll_not_ready)
next
  assume "test_for_new_results K F sim = Returns True sim'"
  then show "test_for_new_results K F sim' = Returns True sim'"
    by (rule poll_true_again)
next
  let ?sA = "sim\<lparr>step_has_started := True, stepfuture := Running\<rparr>"
  let ?sC = "sim2\<lparr>stepfuture := NoState, step_is_finished := True, step_has_started := False\<rparr>"
  assume h: "stepfuture sim \<noteq> Running \<and> step K F ?sA = Returns () sim2"
  then have st: "step K F ?sA = Returns () sim2"
    by simp
  note k = step_keeps_Returns [OF st]
  show "async_step sim = Returns () ?sA"
    using h by (simp add: async_step_launch)
  show "test_for_new_results K F ?sA = Returns False ?sA"
    by (simp add: poll_not_ready)
  show "worker_finishes K F ?sA = Returns () (sim2\<lparr>stepfuture := Ready None\<rparr>)"
    using st by (simp add: worker_finishes_ok)
  have "step_has_started sim2"
    using k(7) by simp
  then show "test_for_new_results K F (sim2\<lparr>stepfuture := Ready None\<rparr>) = Returns True ?sC"
    using poll_ready_ok [of "sim2\<lparr>stepfuture := Ready None\<rparr>" K F] by simp
  show "test_for_new_results K F ?sC = Returns True ?sC"
    by (simp add: poll_not_started)
  show "time sim2 = time sim + dt sim"
    using k(1) by simp
qed

lemma fresh_sim_fields:
  "step_has_started fresh_sim = False" "stepfuture fresh_sim = NoState"
  "time fresh_sim = 0" "dt fresh_sim = 1 / 100" "vort fresh_sim = []"
  "fldpt fresh_sim = []" "bodies fresh_sim = []" "body_store fresh_sim = []"
  "fs fresh_sim = (0, 0)"
  by (simp_all add: fresh_sim_def Simulation_ctor_def cmath_real_def)

lemma step_quiet:
  "step kernels_quiet cmath_real sim = Returns () (sim\<lparr>time := time sim + dt sim\<rparr>)"
  unfolding step_returns_iff by (simp add: kernels_quiet_def)

lemma step_failing:
  "step kernels_failing cmath_real sim = Throws (Exception ''diffusion'') sim"
  unfolding step_def Let_def by (simp add: kernels_failing_def)

theorem C3_test_for_new_results_witness:
  "\<not> step_has_started fresh_sim \<and>
   test_for_new_results kernels_quiet cmath_real fresh_sim = Returns True fresh_sim \<and>
   stepfuture fresh_sim \<noteq> Running \<and>
   step kernels_quiet cmath_real (fresh_sim\<lparr>step_has_started := True, stepfuture := Running\<rparr>)
     = Returns () (fresh_sim\<lparr>step_has_started := True, stepfuture := Running, time := 1 / 100\<rparr>) \<and>
   async_step fresh_sim = Returns () (fresh_sim\<lparr>step_has_started := True, stepfuture := Running\<rparr>) \<and>
   test_for_new_results kernels_quiet cmath_real
       (fresh_sim\<lparr>step_has_started := True, stepfuture := Running\<rparr>)
     = Returns False (fresh_sim\<lparr>step_has_started := True, stepfuture := Running\<rparr>) \<and>
   worker_finishes kernels_quiet cmath_real
       (fresh_sim\<lparr>step_has_started := True, stepfuture := Running\<rparr>)
     = Returns () (fresh_sim\<lparr>step_has_started := True, stepfuture := Running, time := 1 / 100,
                             stepfuture := Ready None\<rparr>) \<and>
   test_for_new_results kernels_quiet cmath_real
       (fresh_sim\<lparr>step_has_started := True, stepfuture := Running, time := 1 / 100,
                   stepfuture := Ready None\<rparr>)
     = Returns True (fresh_sim\<lparr>step_has_started := True, stepfuture := Running, time := 1 / 100,
                               stepfuture := NoState, step_is_finished := True,
                               step_has_started := False\<rparr>) \<and>
   test_for_new_results kernels_quiet cmath_real
       (fresh_sim\<lparr>step_has_started := True, stepfuture := Running, time := 1 / 100,
                   stepfuture := NoState, step_is_finished := True, step_has_started := False\<rparr>)
     = Returns True (fresh_sim\<lparr>step_has_started := True, stepfuture := Running, time := 1 / 100,
                               stepfuture := NoState, step_is_finished := True,
                               step_has_started := False\<rparr>) \<and>
   test_for_new_results kernels_failing cmath_real
       (fresh_sim\<lparr>step_has_started := True, stepfuture := Ready (Some (Exception ''diffusion''))\<rparr>)
     = Throws (Exception ''diffusion'')
         (fresh_sim\<lparr>step_has_started := True, stepfuture := Ready (Some (Exception ''diffusion'')),
                     stepfuture := NoState\<rparr>) \<and>
   worker_finishes kernels_failing cmath_real
       (fresh_sim\<lparr>step_has_started := True, stepfuture := Running\<rparr>)
     = Returns () (fresh_sim\<lparr>step_has_started := True, stepfuture := Running,
                             stepfuture := Ready (Some (Exception ''diffusion''))\<rparr>)"
proof -
  let ?sA = "fresh_sim\<lparr>step_has_started := True, stepfuture := Running\<rparr>"
  let ?s2 = "fresh_sim\<lparr>step_has_started := True, stepfuture := Running, time := 1 / 100\<rparr>"
  let ?sF = "fresh_sim\<lparr>step_has_started := True,
                       stepfuture := Ready (Some (Exception ''diffusion''))\<rparr>"
  have h1: "\<not> step_has_started fresh_sim"
    by (simp add: fresh_sim_fields)
  have h2: "stepfuture fresh_sim \<noteq> Running"
    by (simp add: fresh_sim_fields)
  have h3: "step kernels_quiet cmath_real ?sA = Returns () ?s2"
    by (simp add: step_quiet fresh_sim_fields)
  have h4: "step_has_started ?sF \<and> stepfuture ?sF = Ready (Some (Exception ''diffusion''))"
    by simp
  have h5: "stepfuture ?sA = Running \<and>
            step kernels_failing cmath_real ?sA = Throws (Exception ''diffusion'') ?sA"
    by (simp add: step_failing)
  note T1 = C3_test_for_new_results
              [where sim = fresh_sim and K = kernels_quiet and F = cmath_real, THEN conjunct1]
  note T6 = C3_test_for_new_results
              [where sim = fresh_sim and K = kernels_quiet and F = cmath_real and ?sim2.0 = ?s2,
               THEN conjunct2, THEN conjunct2, THEN conjunct2, THEN conjunct2, THEN conjunct2]
  note T3 = C3_test_for_new_results
              [where sim = ?sF and K = kernels_failing and F = cmath_real
                 and e = "Exception ''diffusion''" and ?sim0.0 = ?sA and ?sim1.0 = ?sA,
               THEN conjunct2, THEN conjunct2, THEN conjunct1]
  from T1 h1 have a: "test_for_new_results kernels_quiet cmath_real fresh_sim
                        = Returns True fresh_sim"
    by blast
  from T6 h2 h3 have b:
    "async_step fresh_sim = Returns () ?sA \<and>
     test_for_new_results kernels_quiet cmath_real ?sA = Returns False ?sA \<and>
     worker_finishes kernels_quiet cmath_real ?sA = Returns () (?s2\<lparr>stepfuture := Ready None\<rparr>) \<and>
     test_for_new_results kernels_quiet cmath_real (?s2\<lparr>stepfuture := Ready None\<rparr>)
       = Returns True (?s2\<lparr>stepfuture := NoState, step_is_finished := True,
                            step_has_started := False\<rparr>) \<and>
     test_for_new_results kernels_quiet cmath_real
         (?s2\<lparr>stepfuture := NoState, step_is_finished := True, step_has_started := False\<rparr>)
       = Returns True (?s2\<lparr>stepfuture := NoState, step_is_finished := True,
                            step_has_started := False\<rparr>) \<and>
     time ?s2 = time fresh_sim + dt fresh_sim"
    by blast
  from T3 h4 h5 have c:
    "test_for_new_results kernels_failing cmath_real ?sF
       = Throws (Exception ''diffusion'') (?sF\<lparr>stepfuture := NoState\<rparr>) \<and>
     worker_finishes kernels_failing cmath_real ?sA
       = Returns () (?sA\<lparr>stepfuture := Ready (Some (Exception ''diffusion''))\<rparr>)"
    by blast
  from a b c h1 h2 h3 show ?thesis
    by blast
qed

lemma reset_no_future:
  assumes "stepfuture sim = NoState"
  shows "reset K F sim =
           Returns () (sim\<lparr>time := 0, vort := [], bdry := [], fldpt := [],
                            bem := bem_reset K (bem sim), sim_is_initialized := False,
                            step_has_started := False, step_is_finished := False\<rparr>)"
  using assms by (simp add: reset_def future_valid_def)

lemma reset_ready_ok:
  assumes "stepfuture sim = Ready None"
  shows "reset K F sim =
           Returns () (sim\<lparr>stepfuture := NoState, time := 0, vort := [], bdry := [], fldpt := [],
                            bem := bem_reset K (bem sim), sim_is_initialized := False,
                            step_has_started := False, step_is_finished := False\<rparr>)"
  using assms
  by (simp add: reset_def future_valid_def future_wait_def future_get_Ready_None)

lemma reset_ready_failed:
  assumes "stepfuture sim = Ready (Some e)"
  shows "reset K F sim = Throws e (sim\<lparr>stepfuture := NoState\<rparr>)"
  using assms
  by (simp add: reset_def future_valid_def future_wait_def future_get_Ready_Some)

lemma reset_running_ok:
  assumes "stepfuture sim = Running" and "step K F sim = Returns () sim1"
  shows "reset K F sim =
           Returns () (sim1\<lparr>stepfuture := NoState, time := 0, vort := [], bdry := [], fldpt := [],
                             bem := bem_reset K (bem sim1), sim_is_initialized := False,
                             step_has_started := False, step_is_finished := False\<rparr>)"
proof -
  let ?r = "sim1\<lparr>stepfuture := Ready None\<rparr>"
  have w: "future_wait K F sim = Returns () ?r"
    using assms by (simp add: future_wait_def worker_finishes_ok)
  have g: "future_get K F ?r = Returns () (?r\<lparr>stepfuture := NoState\<rparr>)"
    by (rule future_get_Ready_None) simp
  show ?thesis
    using assms(1) by (simp add: reset_def future_valid_def w g)
qed

lemma reset_running_failed:
  assumes "stepfuture sim = Running" and "step K F sim = Throws e sim1"
  shows "reset K F sim = Throws e (sim1\<lparr>stepfuture := NoState\<rparr>)"
proof -
  let ?r = "sim1\<lparr>stepfuture := Ready (Some e)\<rparr>"
  have w: "future_wait K F sim = Returns () ?r"
    using assms by (simp add: future_wait_def worker_finishes_failed)
  have g: "future_get K F ?r = Throws e (?r\<lparr>stepfuture := NoState\<rparr>)"
    by (rule future_get_Ready_Some) simp
  show ?thesis
    using assms(1) by (simp add: reset_def future_valid_def w g)
qed

lemma reset_running_fatal:
  assumes "stepfuture sim = Running" and "step K F sim = Fatal f"
  shows "reset K F sim = Fatal f"
  using assms
  by (simp add: reset_def future_valid_def future_wait_def worker_finishes_def)

lemma reset_post:
  assumes "reset K F sim = Returns u sim'"
  shows "vort sim' = [] \<and> bdry sim' = [] \<and> fldpt sim' = [] \<and> time sim' = 0 \<and>
         \<not> step_has_started sim' \<and> \<not> step_is_finished sim' \<and> stepfuture sim' = NoState \<and>
         bodies sim' = bodies sim"
proof (cases "stepfuture sim")
  case NoState
  from assms show ?thesis
    unfolding reset_no_future [OF NoState] using NoState by auto
next
  case Running
  show ?thesis
  proof (cases "step K F sim")
    case (Returns u1 sim1)
    then have s: "step K F sim = Returns () sim1" by simp
    from assms show ?thesis
      unfolding reset_running_ok [OF Running s]
      using step_keeps_Returns(5) [OF s] by auto
  next
    case (Throws e sim1)
    from assms show ?thesis
      unfolding reset_running_failed [OF Running Throws] by simp
  next
    case (Fatal f)
    from assms show ?thesis
      unfolding reset_running_fatal [OF Running Fatal] by simp
  qed
next
  case (Ready r)
  show ?thesis
  proof (cases r)
    case None
    with Ready have rn: "stepfuture sim = Ready None" by simp
    from assms show ?thesis
      unfolding reset_ready_ok [OF rn] by auto
  next
    case (Some e)
    with Ready have rs: "stepfuture sim = Ready (Some e)" by simp
    from assms show ?thesis
      unfolding reset_ready_failed [OF rs] by simp
  qed
qed

text \<open>
  C4. Whenever \<^verbatim>\<open>reset\<close> returns, the three collection lists are empty, the time is 0,
  the step-started and step-finished flags are cleared, no future is held, and the body
  list is the one from before the call (only \<^verbatim>\<open>clear_bodies\<close> empties it). With a step
  in flight, \<^verbatim>\<open>reset\<close> first lets the step run to its end and takes its result: if the
  step ended normally, \<^verbatim>\<open>reset\<close> returns the cleared state of the simulation the step
  left; if the step ended with an exception, the exception leaves \<^verbatim>\<open>reset\<close> and nothing
  is cleared. With no step in flight (no future, or a result not yet taken from a step
  that ended normally) \<^verbatim>\<open>reset\<close> returns the cleared state at once.
\<close>

theorem C4_reset:
  "(reset K F sim = Returns () sim' \<longrightarrow>
      vort sim' = [] \<and> bdry sim' = [] \<and> fldpt sim' = [] \<and> time sim' = 0 \<and>
      \<not> step_has_started sim' \<and> \<not> step_is_finished sim' \<and> stepfuture sim' = NoState \<and>
      bodies sim' = bodies sim) \<and>
   (stepfuture sim = Running \<and> step K F sim = Returns () sim1 \<longrightarrow>
      reset K F sim =
        Returns () (sim1\<lparr>stepfuture := NoState, time := 0, vort := [], bdry := [], fldpt := [],
                          bem := bem_reset K (bem sim1), sim_is_initialized := False,
                          step_has_started := False, step_is_finished := False\<rparr>)) \<and>
   (stepfuture sim = Running \<and> step K F sim = Throws e sim1 \<longrightarrow>
      reset K F sim = Throws e (sim1\<lparr>stepfuture := NoState\<rparr>)) \<and>
   (stepfuture sim = NoState \<or> stepfuture sim = Ready None \<longrightarrow>
      reset K F sim =
        Returns () (sim\<lparr>stepfuture := NoState, time := 0, vort := [], bdry := [], fldpt := [],
                         bem := bem_reset K (bem sim), sim_is_initialized := False,
                         step_has_started := False, step_is_finished := False\<rparr>)) \<and>
   (stepfuture sim = Ready (Some e) \<longrightarrow>
      reset K F sim = Throws e (sim\<lparr>stepfuture := NoState\<rparr>)) \<and>
   bodies (clear_bodies sim) = []"
proof (intro conjI impI)
  assume "reset K F sim = Returns () sim'"
  from reset_post [OF this]
  show "vort sim' = []" "bdry sim' = []" "fldpt sim' = []" "time sim' = 0"
    "\<not> step_has_started sim'" "\<not> step_is_finished sim'" "stepfuture sim' = NoState"
    "bodies sim' = bodies sim"
    by blast+
next
  assume "stepfuture sim = Running \<and> step K F sim = Returns () sim1"
  then show "reset K F sim =
        Returns () (sim1\<lparr>stepfuture := NoState, time := 0, vort := [], bdry := [], fldpt := [],
                          bem := bem_reset K (bem sim1), sim_is_initialized := False,
                          step_has_started := False, step_is_finished := False\<rparr>)"
    by (simp add: reset_running_ok)
next
  assume "stepfuture sim = Running \<and> step K F sim = Throws e sim1"
  then show "reset K F sim = Throws e (sim1\<lparr>stepfuture := NoState\<rparr>)"
    by (simp add: reset_running_failed)
next
  assume "stepfuture sim = NoState \<or> stepfuture sim = Ready None"
  then show "reset K F sim =
        Returns () (sim\<lparr>stepfuture := NoState, time := 0, vort := [], bdry := [], fldpt := [],
                         bem := bem_reset K (bem sim), sim_is_initialized := False,
                         step_has_started := False, step_is_finished := False\<rparr>)"
  proof
    assume n: "stepfuture sim = NoState"
    then have "sim\<lparr>stepfuture := NoState\<rparr> = sim"
      by (cases sim) simp
    with reset_no_future [OF n, of K] show ?thesis
      by (metis (no_types) Simulation.update_convs(21) Simulation.surjective)
  next
    assume "stepfuture sim = Ready None"
    then show ?thesis
      by (rule reset_ready_ok)
  qed
next
  assume "stepfuture sim = Ready (Some e)"
  then show "reset K F sim = Throws e (sim\<lparr>stepfuture := NoState\<rparr>)"
    by (rule reset_ready_failed)
next
  show "bodies (clear_bodies sim) = []"
    by (simp add: clear_bodies_def)
qed

lemma sim_in_flight_fields:
  "stepfuture sim_in_flight = Running" "bodies sim_in_flight = [Some 0]"
  "bdry sim_in_flight = [surf_of panel_one fixed None]"
  by (simp_all add: sim_in_flight_def)

theorem C4_reset_witness:
  "stepfuture sim_in_flight = Running \<and> bdry sim_in_flight \<noteq> [] \<and>
   (\<exists>sim'. reset kernels_quiet cmath_real sim_in_flight = Returns () sim' \<and>
           vort sim' = [] \<and> bdry sim' = [] \<and> fldpt sim' = [] \<and> time sim' = 0 \<and>
           \<not> step_has_started sim' \<and> \<not> step_is_finished sim' \<and> stepfuture sim' = NoState \<and>
           bodies sim' = [Some 0]) \<and>
   reset kernels_failing cmath_real sim_in_flight
     = Throws (Exception ''diffusion'') (sim_in_flight\<lparr>stepfuture := NoState\<rparr>) \<and>
   stepfuture fresh_sim = NoState \<and>
   (\<exists>sim'. reset kernels_quiet cmath_real fresh_sim = Returns () sim' \<and> time sim' = 0)"
proof -
  let ?s1 = "sim_in_flight\<lparr>time := time sim_in_flight + dt sim_in_flight\<rparr>"
  have run: "stepfuture sim_in_flight = Running"
    by (rule sim_in_flight_fields)
  have ok: "step kernels_quiet cmath_real sim_in_flight = Returns () ?s1"
    by (rule step_quiet)
  have bad: "step kernels_failing cmath_real sim_in_flight
               = Throws (Exception ''diffusion'') sim_in_flight"
    by (rule step_failing)
  have ns: "stepfuture fresh_sim = NoState"
    by (simp add: fresh_sim_fields)
  from C4_reset [where sim = sim_in_flight and K = kernels_quiet and F = cmath_real
                   and ?sim1.0 = ?s1, THEN conjunct2, THEN conjunct1] run ok
  obtain sim' where r: "reset kernels_quiet cmath_real sim_in_flight = Returns () sim'"
    by blast
  from C4_reset [where sim = sim_in_flight and K = kernels_quiet and F = cmath_real
                   and sim' = sim', THEN conjunct1] r
  have post: "vort sim' = [] \<and> bdry sim' = [] \<and> fldpt sim' = [] \<and> time sim' = 0 \<and>
              \<not> step_has_started sim' \<and> \<not> step_is_finished sim' \<and> stepfuture sim' = NoState \<and>
              bodies sim' = bodies sim_in_flight"
    by blast
  then have a: "\<exists>sim'. reset kernels_quiet cmath_real sim_in_flight = Returns () sim' \<and>
           vort sim' = [] \<and> bdry sim' = [] \<and> fldpt sim' = [] \<and> time sim' = 0 \<and>
           \<not> step_has_started sim' \<and> \<not> step_is_finished sim' \<and> stepfuture sim' = NoState \<and>
           bodies sim' = [Some 0]"
    using r by (auto simp: sim_in_flight_fields)
  from C4_reset [where sim = sim_in_flight and K = kernels_failing and F = cmath_real
                   and e = "Exception ''diffusion''" and ?sim1.0 = sim_in_flight,
                 THEN conjunct2, THEN conjunct2, THEN conjunct1] run bad
  have b: "reset kernels_failing cmath_real sim_in_flight
             = Throws (Exception ''diffusion'') (sim_in_flight\<lparr>stepfuture := NoState\<rparr>)"
    by blast
  from C4_reset [where sim = fresh_sim and K = kernels_quiet and F = cmath_real,
                 THEN conjunct2, THEN conjunct2, THEN conjunct2, THEN conjunct1] ns
  obtain sim'' where r2: "reset kernels_quiet cmath_real fresh_sim = Returns () sim''"
    by blast
  from C4_reset [where sim = fresh_sim and K = kernels_quiet and F = cmath_real
                   and sim' = sim'', THEN conjunct1] r2
  have "time sim'' = 0"
    by blast
  with r2 have c: "\<exists>sim'. reset kernels_quiet cmath_real fresh_sim = Returns () sim' \<and> time sim' = 0"
    by blast
  have "bdry sim_in_flight \<noteq> []"
    by (simp add: sim_in_flight_fields)
  with run a b ns c show ?thesis
    by blast
qed

section \<open>check_simulation: proofs\<close>

lemma bodies_move_loop_never_throws:
  "bodies_move_loop F tm dtv bps sm h \<noteq> Throws e h'"
proof (induction bps arbitrary: sm h)
  case Nil
  show ?case by simp
next
  case (Cons bp bps)
  show ?case
  proof (cases bp)
    case None
    then show ?thesis by simp
  next
    case (Some a)
    show ?thesis
    proof (cases "a < length h")
      case False
      with Some show ?thesis by simp
    next
      case True
      obtain thisvel b1 where g1: "get_vel F tm (h ! a) = (thisvel, b1)"
        by (cases "get_vel F tm (h ! a)")
      obtain nextvel b2 where g2: "get_vel F (tm + dtv) b1 = (nextvel, b2)"
        by (cases "get_vel F (tm + dtv) b1")
      from Some True g1 g2 Cons.IH show ?thesis
        by (simp add: Let_def)
    qed
  qed
qed

lemma bodies_move_loop_returns:
  assumes "list_all (\<lambda>bp. deref h bp \<noteq> None) bps"
  shows "\<exists>m h'. bodies_move_loop F tm dtv bps sm h = Returns m h' \<and> length h' = length h"
  using assms
proof (induction bps arbitrary: sm h)
  case Nil
  show ?case by simp
next
  case (Cons bp bps)
  from Cons.prems obtain a where a: "bp = Some a" "a < length h"
    by (auto simp: deref_def split: option.splits if_splits)
  obtain thisvel b1 where g1: "get_vel F tm (h ! a) = (thisvel, b1)"
    by (cases "get_vel F tm (h ! a)")
  obtain nextvel b2 where g2: "get_vel F (tm + dtv) b1 = (nextvel, b2)"
    by (cases "get_vel F (tm + dtv) b1")
  have same: "deref (h[a := b2]) q \<noteq> None \<longleftrightarrow> deref h q \<noteq> None" for q
    by (simp add: deref_def split: option.splits)
  from Cons.prems have "list_all (\<lambda>bp. deref h bp \<noteq> None) bps"
    by simp
  then have rest: "list_all (\<lambda>bp. deref (h[a := b2]) bp \<noteq> None) bps"
    unfolding list_all_iff using same by blast
  from Cons.IH [OF rest]
  obtain m h' where
    r: "bodies_move_loop F tm dtv bps
          (if abs (vec_at thisvel 0) + abs (vec_at thisvel 1) + abs (get_rotvel tm b2) +
              abs (vec_at nextvel 0) + abs (vec_at nextvel 1) + abs (get_rotvel (tm + dtv) b2)
                > float_epsilon F
           then True else sm) (h[a := b2]) = Returns m h'"
       "length h' = length (h[a := b2])"
    by blast
  from a g1 g2 r show ?case
    by (simp add: Let_def)
qed

lemma do_any_bodies_move_never_throws:
  "do_any_bodies_move F sim \<noteq> Throws e sim'"
proof (cases "bodies_move_loop F (time sim) (dt sim) (bodies sim) False (body_store sim)")
  case (Returns m h)
  then show ?thesis by (simp add: do_any_bodies_move_def)
next
  case (Throws e1 h)
  with bodies_move_loop_never_throws [of F "time sim" "dt sim" "bodies sim" False
                                         "body_store sim" e1 h]
  show ?thesis by simp
next
  case (Fatal f)
  then show ?thesis by (simp add: do_any_bodies_move_def)
qed

lemma do_any_bodies_move_returns:
  assumes "list_all (\<lambda>bp. deref (body_store sim) bp \<noteq> None) (bodies sim)"
  shows "\<exists>m sim'. do_any_bodies_move F sim = Returns m sim'"
proof -
  from bodies_move_loop_returns [OF assms, of F "time sim" "dt sim" False]
  obtain m h' where "bodies_move_loop F (time sim) (dt sim) (bodies sim) False (body_store sim)
                       = Returns m h'"
    by blast
  then show ?thesis
    by (simp add: do_any_bodies_move_def)
qed

lemma check_nothing_at_all:
  assumes "nbf = 0" and "get_nparts sim = 0"
  shows "check_simulation F nff nbf sim = Returns msg_no_features_no_bodies sim"
  using assms by (simp add: check_simulation_def)

lemma check_zero_freestream:
  assumes "0 < nbf" and "get_nparts sim = 0"
    and "vec_at (fs sim) 0 * vec_at (fs sim) 0 + vec_at (fs sim) 1 * vec_at (fs sim) 1
           < float_epsilon F"
    and "do_any_bodies_move F sim = Returns False sim1"
  shows "check_simulation F nff nbf sim = Returns msg_zero_freestream sim1"
  using assms by (simp add: check_simulation_def)

lemma check_never_throws: "check_simulation F nff nbf sim \<noteq> Throws e sim'"
proof (cases "do_any_bodies_move F sim")
  case (Returns m sim1)
  then show ?thesis
    by (simp add: check_simulation_def Let_def)
next
  case (Throws e1 sim1)
  with do_any_bodies_move_never_throws show ?thesis
    by blast
next
  case (Fatal f)
  then show ?thesis
    by (simp add: check_simulation_def Let_def)
qed

lemma check_returns:
  assumes "list_all (\<lambda>bp. deref (body_store sim) bp \<noteq> None) (bodies sim)"
  shows "\<exists>str sim'. check_simulation F nff nbf sim = Returns str sim'"
proof -
  from do_any_bodies_move_returns [OF assms, of F]
  obtain m sim1 where "do_any_bodies_move F sim = Returns m sim1"
    by blast
  then show ?thesis
    by (simp add: check_simulation_def Let_def)
qed

lemma no_bodies_message: "sublist ''No flow features and no bodies'' msg_no_features_no_bodies"
proof -
  have "msg_no_features_no_bodies =
          [] @ ''No flow features and no bodies'' @
          (''. Add one or both, reset, and run.'' @ [CHR 0x0A])"
    by (simp add: msg_no_features_no_bodies_def)
  then show ?thesis
    unfolding sublist_def by blast
qed

lemma no_diffusion_message_absent: "\<not> sublist msg_no_diffusion msg_zero_freestream"
proof
  assume "sublist msg_no_diffusion msg_zero_freestream"
  then have "length msg_no_diffusion \<le> length msg_zero_freestream"
    by (rule sublist_length_le)
  then show False
    by (simp add: msg_no_diffusion_def msg_zero_freestream_def)
qed

text \<open>
  C2. \<^verbatim>\<open>check_simulation\<close> never leaves by an exception, and it returns a text whenever
  every pointer of the body list points to a body. With no boundary feature and no
  particle the text is the advisory that holds "No flow features and no bodies". With at
  least one boundary feature, no particle, a freestream whose squared magnitude is below
  the machine epsilon and no body moving, the text is the zero-freestream advisory alone,
  whatever the diffusion switch says: the advisory about disabled diffusion is not in it.
\<close>

theorem C2_check_simulation:
  "(nbf = 0 \<and> get_nparts sim = 0 \<longrightarrow>
      check_simulation F nff nbf sim = Returns msg_no_features_no_bodies sim) \<and>
   sublist ''No flow features and no bodies'' msg_no_features_no_bodies \<and>
   (0 < nbf \<and> get_nparts sim = 0 \<and>
    vec_at (fs sim) 0 * vec_at (fs sim) 0 + vec_at (fs sim) 1 * vec_at (fs sim) 1
      < float_epsilon F \<and>
    do_any_bodies_move F sim = Returns False sim1 \<longrightarrow>
      check_simulation F nff nbf sim = Returns msg_zero_freestream sim1) \<and>
   \<not> sublist msg_no_diffusion msg_zero_freestream \<and>
   check_simulation F nff nbf sim \<noteq> Throws e sim' \<and>
   (list_all (\<lambda>bp. deref (body_store sim) bp \<noteq> None) (bodies sim) \<longrightarrow>
      (\<exists>str sim''. check_simulation F nff nbf sim = Returns str sim''))"
  using check_nothing_at_all [of nbf sim F nff] no_bodies_message
        check_zero_freestream [of nbf sim F sim1 nff] no_diffusion_message_absent
        check_never_throws [of F nff nbf sim e sim'] check_returns [of sim F nff nbf]
  by blast

lemma get_vel_default:
  "get_vel cmath_real t (Body_default :: real Body) = ((0, 0), Body_default)"
  by (simp add: get_vel_no_func Body_default_def Body_ctor_def)

lemma sim_no_diffusion_fields:
  "get_nparts sim_no_diffusion = 0" "fs sim_no_diffusion = (0, 0)"
  "bodies sim_no_diffusion = [Some 0]" "body_store sim_no_diffusion = [Body_default]"
  "get_diffuse (diff sim_no_diffusion) = False"
  by (simp_all add: sim_no_diffusion_def get_nparts_def fresh_sim_fields get_diffuse_def)

lemma sim_no_diffusion_still:
  "do_any_bodies_move cmath_real sim_no_diffusion = Returns False sim_no_diffusion"
proof -
  have "avel (Body_default :: real Body) = 0"
    by (simp add: Body_default_def Body_ctor_def)
  moreover have "float_epsilon cmath_real = 1 / 2 ^ 23"
    by (simp add: cmath_real_def)
  ultimately have "bodies_move_loop cmath_real (time sim_no_diffusion) (dt sim_no_diffusion)
          [Some 0] False [Body_default] = Returns False [Body_default]"
    by (simp add: get_vel_default get_rotvel_def vec_at_def)
  then have "do_any_bodies_move cmath_real sim_no_diffusion
               = Returns False (sim_no_diffusion\<lparr>body_store := [Body_default]\<rparr>)"
    by (simp add: do_any_bodies_move_def sim_no_diffusion_fields)
  moreover have "sim_no_diffusion\<lparr>body_store := [Body_default]\<rparr> = sim_no_diffusion"
    by (simp add: sim_no_diffusion_def)
  ultimately show ?thesis by simp
qed

theorem C2_check_simulation_witness:
  "get_nparts fresh_sim = 0 \<and>
   check_simulation cmath_real 0 0 fresh_sim = Returns msg_no_features_no_bodies fresh_sim \<and>
   (0::nat) < 1 \<and> get_nparts sim_no_diffusion = 0 \<and>
   \<not> get_diffuse (diff sim_no_diffusion) \<and>
   do_any_bodies_move cmath_real sim_no_diffusion = Returns False sim_no_diffusion \<and>
   check_simulation cmath_real 0 1 sim_no_diffusion = Returns msg_zero_freestream sim_no_diffusion \<and>
   list_all (\<lambda>bp. deref (body_store sim_no_diffusion) bp \<noteq> None) (bodies sim_no_diffusion)"
proof -
  have p0: "get_nparts fresh_sim = 0"
    by (simp add: get_nparts_def fresh_sim_fields)
  have z: "vec_at (fs sim_no_diffusion) 0 * vec_at (fs sim_no_diffusion) 0 +
           vec_at (fs sim_no_diffusion) 1 * vec_at (fs sim_no_diffusion) 1
             < float_epsilon cmath_real"
    by (simp add: sim_no_diffusion_fields vec_at_def cmath_real_def)
  have v: "list_all (\<lambda>bp. deref (body_store sim_no_diffusion) bp \<noteq> None)
             (bodies sim_no_diffusion)"
    by (simp add: sim_no_diffusion_fields deref_def)
  from C2_check_simulation [where nbf = 0 and sim = fresh_sim and F = cmath_real and nff = 0,
                            THEN conjunct1] p0
  have a: "check_simulation cmath_real 0 0 fresh_sim = Returns msg_no_features_no_bodies fresh_sim"
    by blast
  from C2_check_simulation [where nbf = 1 and sim = sim_no_diffusion and F = cmath_real
                              and nff = 0 and ?sim1.0 = sim_no_diffusion,
                            THEN conjunct2, THEN conjunct2, THEN conjunct1]
       z sim_no_diffusion_still sim_no_diffusion_fields(1)
  have b: "check_simulation cmath_real 0 1 sim_no_diffusion
             = Returns msg_zero_freestream sim_no_diffusion"
    by simp
  from p0 a b v sim_no_diffusion_still sim_no_diffusion_fields(1,5) show ?thesis
    by simp
qed

section \<open>add_particles and add_fldpts: proofs\<close>

lemma set_vdelta_loop_length: "length (set_vdelta_loop i vd v) = length v"
proof (induction i vd v rule: set_vdelta_loop.induct)
  case (1 i vd v)
  show ?case
  proof (cases "i < length v")
    case True
    then have "set_vdelta_loop i vd v = set_vdelta_loop (i + 4) vd (v[i := vd])"
      by (subst set_vdelta_loop.simps) simp
    with "1.IH" [OF True] show ?thesis by simp
  next
    case False
    then have "set_vdelta_loop i vd v = v"
      by (subst set_vdelta_loop.simps) simp
    then show ?thesis by simp
  qed
qed

lemma stride_shift:
  fixes i j :: nat
  assumes "j \<noteq> i"
  shows "(i + 4 \<le> j \<and> (j - (i + 4)) mod 4 = 0) \<longleftrightarrow> (i \<le> j \<and> (j - i) mod 4 = 0)"
  using assms by presburger

lemma set_vdelta_loop_nth:
  "j < length v \<Longrightarrow>
     set_vdelta_loop i vd v ! j = (if i \<le> j \<and> (j - i) mod 4 = 0 then vd else v ! j)"
proof (induction i vd v rule: set_vdelta_loop.induct)
  case (1 i vd v)
  show ?case
  proof (cases "i < length v")
    case True
    then have unf: "set_vdelta_loop i vd v = set_vdelta_loop (i + 4) vd (v[i := vd])"
      by (subst set_vdelta_loop.simps) simp
    from "1.prems" have j: "j < length (v[i := vd])"
      by simp
    note ih = "1.IH" [OF True j]
    show ?thesis
    proof (cases "j = i")
      case True
      with ih \<open>i < length v\<close> show ?thesis
        unfolding unf by simp
    next
      case False
      then have "v[i := vd] ! j = v ! j"
        by simp
      with ih stride_shift [OF False] show ?thesis
        unfolding unf by simp
    qed
  next
    case False
    then have "set_vdelta_loop i vd v = v"
      by (subst set_vdelta_loop.simps) simp
    moreover from False "1.prems" have "\<not> i \<le> j"
      by simp
    ultimately show ?thesis by simp
  qed
qed

lemma stride_three:
  fixes j :: nat
  shows "(3 \<le> j \<and> (j - 3) mod 4 = 0) \<longleftrightarrow> j mod 4 = 3"
  by presburger

lemma set_vdelta_radii:
  "j < length v \<Longrightarrow> set_vdelta_loop 3 vd v ! j = (if j mod 4 = 3 then vd else v ! j)"
  by (simp add: set_vdelta_loop_nth stride_three)

lemma set_vdelta_ignores_radii:
  assumes "length v = length w" and "\<forall>j<length v. j mod 4 \<noteq> 3 \<longrightarrow> v ! j = w ! j"
  shows "set_vdelta_loop 3 vd v = set_vdelta_loop 3 vd w"
proof (rule nth_equalityI)
  show "length (set_vdelta_loop 3 vd v) = length (set_vdelta_loop 3 vd w)"
    using assms(1) by (simp add: set_vdelta_loop_length)
next
  fix j
  assume "j < length (set_vdelta_loop 3 vd v)"
  then have j: "j < length v" "j < length w"
    using assms(1) by (simp_all add: set_vdelta_loop_length)
  show "set_vdelta_loop 3 vd v ! j = set_vdelta_loop 3 vd w ! j"
  proof (cases "j mod 4 = 3")
    case True
    with j show ?thesis by (simp add: set_vdelta_radii)
  next
    case False
    with assms(2) j(1) have "v ! j = w ! j" by blast
    with False j show ?thesis by (simp add: set_vdelta_radii)
  qed
qed

lemma add_particles_empty: "add_particles F A [] sim = Returns () sim"
  by (simp add: add_particles_def)

lemma add_particles_ignores_radii:
  assumes "length v = length w" and "\<forall>j<length v. j mod 4 \<noteq> 3 \<longrightarrow> v ! j = w ! j"
  shows "add_particles F A v sim = add_particles F A w sim"
  unfolding add_particles_def Let_def
            set_vdelta_ignores_radii [OF assms, of "get_vdelta F sim"]
  using assms(1) by simp

lemma add_particles_new_collection:
  assumes "v \<noteq> []" and "length v mod 4 = 0" and "vort sim = []"
  shows "add_particles F A v sim =
           (case Points_ctor (set_vdelta_loop 3 (get_vdelta F sim) v) active lagrangian of
              Returns pts _ \<Rightarrow> Returns () (sim\<lparr>vort := vort sim @ [CPoints pts]\<rparr>)
            | Throws e _ \<Rightarrow> Throws e sim
            | Fatal f \<Rightarrow> Fatal f)"
  using assms by (simp add: add_particles_def Let_def)

lemma add_particles_last_collection:
  assumes "v \<noteq> []" and "length v mod 4 = 0" and "vort sim \<noteq> []"
    and "last (vort sim) = CPoints pts"
  shows "add_particles F A v sim =
           (case A (set_vdelta_loop 3 (get_vdelta F sim) v) pts of
              Returns _ pts' \<Rightarrow>
                Returns () (sim\<lparr>vort := (vort sim)[length (vort sim) - 1 := CPoints pts']\<rparr>)
            | Throws e pts' \<Rightarrow>
                Throws e (sim\<lparr>vort := (vort sim)[length (vort sim) - 1 := CPoints pts']\<rparr>)
            | Fatal f \<Rightarrow> Fatal f)"
  using assms by (simp add: add_particles_def Let_def Points_add_new_def)

text \<open>
  C10. \<^verbatim>\<open>add_particles\<close> with an empty vector returns at once and changes nothing. Its
  outcome does not depend on the radii the caller supplied: two vectors of the same
  length that agree outside the positions 3, 7, 11, ... give the same outcome. For a
  non-empty vector of length \<open>4n\<close>, the vector that is handed on, to the constructor of a
  new collection when there is none, or to \<^verbatim>\<open>add_new\<close> of the last collection when
  that is a point set, is the caller's with every fourth component replaced by
  \<^verbatim>\<open>get_vdelta()\<close>.
\<close>

theorem C10_add_particles_overwrites_radius:
  "add_particles F A [] sim = Returns () sim \<and>
   (length v = length w \<and> (\<forall>j<length v. j mod 4 \<noteq> 3 \<longrightarrow> v ! j = w ! j) \<longrightarrow>
      add_particles F A v sim = add_particles F A w sim) \<and>
   (v \<noteq> [] \<and> length v mod 4 = 0 \<longrightarrow>
      (\<exists>u. length u = length v \<and>
           (\<forall>j<length v. u ! j = (if j mod 4 = 3 then get_vdelta F sim else v ! j)) \<and>
           (vort sim = [] \<longrightarrow>
              add_particles F A v sim =
                (case Points_ctor u active lagrangian of
                   Returns pts _ \<Rightarrow> Returns () (sim\<lparr>vort := vort sim @ [CPoints pts]\<rparr>)
                 | Throws e _ \<Rightarrow> Throws e sim
                 | Fatal f \<Rightarrow> Fatal f)) \<and>
           (\<forall>pts. vort sim \<noteq> [] \<and> last (vort sim) = CPoints pts \<longrightarrow>
              add_particles F A v sim =
                (case A u pts of
                   Returns _ pts' \<Rightarrow>
                     Returns () (sim\<lparr>vort := (vort sim)[length (vort sim) - 1 := CPoints pts']\<rparr>)
                 | Throws e pts' \<Rightarrow>
                     Throws e (sim\<lparr>vort := (vort sim)[length (vort sim) - 1 := CPoints pts']\<rparr>)
                 | Fatal f \<Rightarrow> Fatal f)))) \<and>
   get_vdelta F sim =
     get_particle_overlap (diff sim) *
       (get_nom_sep_scaled (diff sim) * std_sqrt F (divide (dt sim) (re sim)))"
proof (intro conjI impI)
  show "add_particles F A [] sim = Returns () sim"
    by (rule add_particles_empty)
next
  assume "length v = length w \<and> (\<forall>j<length v. j mod 4 \<noteq> 3 \<longrightarrow> v ! j = w ! j)"
  then show "add_particles F A v sim = add_particles F A w sim"
    using add_particles_ignores_radii by blast
next
  let ?u = "set_vdelta_loop 3 (get_vdelta F sim) v"
  assume h: "v \<noteq> [] \<and> length v mod 4 = 0"
  have 1: "length ?u = length v"
    by (rule set_vdelta_loop_length)
  have 2: "\<forall>j<length v. ?u ! j = (if j mod 4 = 3 then get_vdelta F sim else v ! j)"
    by (simp add: set_vdelta_radii)
  have 3: "vort sim = [] \<longrightarrow>
              add_particles F A v sim =
                (case Points_ctor ?u active lagrangian of
                   Returns pts _ \<Rightarrow> Returns () (sim\<lparr>vort := vort sim @ [CPoints pts]\<rparr>)
                 | Throws e _ \<Rightarrow> Throws e sim
                 | Fatal f \<Rightarrow> Fatal f)"
  proof
    assume "vort sim = []"
    with h show "add_particles F A v sim =
                (case Points_ctor ?u active lagrangian of
                   Returns pts _ \<Rightarrow> Returns () (sim\<lparr>vort := vort sim @ [CPoints pts]\<rparr>)
                 | Throws e _ \<Rightarrow> Throws e sim
                 | Fatal f \<Rightarrow> Fatal f)"
      by (intro add_particles_new_collection) simp_all
  qed
  have 4: "\<forall>pts. vort sim \<noteq> [] \<and> last (vort sim) = CPoints pts \<longrightarrow>
              add_particles F A v sim =
                (case A ?u pts of
                   Returns _ pts' \<Rightarrow>
                     Returns () (sim\<lparr>vort := (vort sim)[length (vort sim) - 1 := CPoints pts']\<rparr>)
                 | Throws e pts' \<Rightarrow>
                     Throws e (sim\<lparr>vort := (vort sim)[length (vort sim) - 1 := CPoints pts']\<rparr>)
                 | Fatal f \<Rightarrow> Fatal f)"
  proof (intro allI impI)
    fix pts
    assume "vort sim \<noteq> [] \<and> last (vort sim) = CPoints pts"
    with h show "add_particles F A v sim =
                (case A ?u pts of
                   Returns _ pts' \<Rightarrow>
                     Returns () (sim\<lparr>vort := (vort sim)[length (vort sim) - 1 := CPoints pts']\<rparr>)
                 | Throws e pts' \<Rightarrow>
                     Throws e (sim\<lparr>vort := (vort sim)[length (vort sim) - 1 := CPoints pts']\<rparr>)
                 | Fatal f \<Rightarrow> Fatal f)"
      by (intro add_particles_last_collection) simp_all
  qed
  from 1 2 3 4 show "\<exists>u. length u = length v \<and>
           (\<forall>j<length v. u ! j = (if j mod 4 = 3 then get_vdelta F sim else v ! j)) \<and>
           (vort sim = [] \<longrightarrow>
              add_particles F A v sim =
                (case Points_ctor u active lagrangian of
                   Returns pts _ \<Rightarrow> Returns () (sim\<lparr>vort := vort sim @ [CPoints pts]\<rparr>)
                 | Throws e _ \<Rightarrow> Throws e sim
                 | Fatal f \<Rightarrow> Fatal f)) \<and>
           (\<forall>pts. vort sim \<noteq> [] \<and> last (vort sim) = CPoints pts \<longrightarrow>
              add_particles F A v sim =
                (case A u pts of
                   Returns _ pts' \<Rightarrow>
                     Returns () (sim\<lparr>vort := (vort sim)[length (vort sim) - 1 := CPoints pts']\<rparr>)
                 | Throws e pts' \<Rightarrow>
                     Throws e (sim\<lparr>vort := (vort sim)[length (vort sim) - 1 := CPoints pts']\<rparr>)
                 | Fatal f \<Rightarrow> Fatal f))"
    by (intro exI [of _ ?u] conjI)
next
  show "get_vdelta F sim =
          get_particle_overlap (diff sim) *
            (get_nom_sep_scaled (diff sim) * std_sqrt F (divide (dt sim) (re sim)))"
    by (simp add: get_vdelta_def get_ips_def get_hnu_def)
qed

lemma sim_with_points_fields:
  "vort sim_with_points = [CPoints no_points]"
  by (simp add: sim_with_points_def)

theorem C10_add_particles_overwrites_radius_witness:
  "add_particles cmath_real add_new_radii [] sim_with_points = Returns () sim_with_points \<and>
   length [0, 0, 1, 5 :: real] = length [0, 0, 1, 9 :: real] \<and>
   add_particles cmath_real add_new_radii [0, 0, 1, 5] sim_with_points
     = add_particles cmath_real add_new_radii [0, 0, 1, 9] sim_with_points \<and>
   [0, 0, 1, 5 :: real] \<noteq> [] \<and> length [0, 0, 1, 5 :: real] mod 4 = 0 \<and>
   add_particles cmath_real add_new_radii [0, 0, 1, 5] sim_with_points
     = Returns () (sim_with_points\<lparr>vort :=
         [CPoints (no_points\<lparr>elem_n := 1,
                               elem_r := [get_vdelta cmath_real sim_with_points]\<rparr>)]\<rparr>)"
proof -
  let ?v = "[0, 0, 1, 5 :: real]"
  let ?w = "[0, 0, 1, 9 :: real]"
  note T = C10_add_particles_overwrites_radius
             [where F = cmath_real and A = add_new_radii and sim = sim_with_points
                and v = ?v and w = ?w]
  have a: "add_particles cmath_real add_new_radii [] sim_with_points = Returns () sim_with_points"
    using T [THEN conjunct1] .
  have l: "length ?v = length ?w"
    by simp
  have agree: "\<forall>j<length ?v. j mod 4 \<noteq> 3 \<longrightarrow> ?v ! j = ?w ! j"
    by (simp add: All_less_Suc)
  from T [THEN conjunct2, THEN conjunct1] l agree
  have b: "add_particles cmath_real add_new_radii ?v sim_with_points
             = add_particles cmath_real add_new_radii ?w sim_with_points"
    by blast
  have ne: "?v \<noteq> []" "length ?v mod 4 = 0"
    by simp_all
  from T [THEN conjunct2, THEN conjunct2, THEN conjunct1] ne
  obtain u where u: "length u = length ?v"
    "\<forall>j<length ?v. u ! j = (if j mod 4 = 3 then get_vdelta cmath_real sim_with_points else ?v ! j)"
    "\<forall>pts. vort sim_with_points \<noteq> [] \<and> last (vort sim_with_points) = CPoints pts \<longrightarrow>
       add_particles cmath_real add_new_radii ?v sim_with_points =
         (case add_new_radii u pts of
            Returns _ pts' \<Rightarrow>
              Returns () (sim_with_points\<lparr>vort :=
                 (vort sim_with_points)[length (vort sim_with_points) - 1 := CPoints pts']\<rparr>)
          | Throws e pts' \<Rightarrow>
              Throws e (sim_with_points\<lparr>vort :=
                 (vort sim_with_points)[length (vort sim_with_points) - 1 := CPoints pts']\<rparr>)
          | Fatal f \<Rightarrow> Fatal f)"
    by blast
  from u(1) have len: "length u = 4"
    by simp
  have "(3::nat) < length ?v"
    by simp
  with u(2) have "u ! 3 = (if (3::nat) mod 4 = 3 then get_vdelta cmath_real sim_with_points
                          else ?v ! 3)"
    by blast
  then have r3: "u ! 3 = get_vdelta cmath_real sim_with_points"
    by simp
  have "map (\<lambda>i. u ! (4 * i + 3)) [0..<length u div 4] = [u ! 3]"
    by (simp add: len)
  then have an: "add_new_radii u no_points =
                   Returns () (no_points\<lparr>elem_n := 1,
                                         elem_r := [get_vdelta cmath_real sim_with_points]\<rparr>)"
    by (simp add: add_new_radii_def no_points_def len r3)
  have "vort sim_with_points \<noteq> [] \<and> last (vort sim_with_points) = CPoints no_points"
    by (simp add: sim_with_points_fields)
  with u(3) have "add_particles cmath_real add_new_radii ?v sim_with_points =
         (case add_new_radii u no_points of
            Returns _ pts' \<Rightarrow>
              Returns () (sim_with_points\<lparr>vort :=
                 (vort sim_with_points)[length (vort sim_with_points) - 1 := CPoints pts']\<rparr>)
          | Throws e pts' \<Rightarrow>
              Throws e (sim_with_points\<lparr>vort :=
                 (vort sim_with_points)[length (vort sim_with_points) - 1 := CPoints pts']\<rparr>)
          | Fatal f \<Rightarrow> Fatal f)"
    by blast
  then have c: "add_particles cmath_real add_new_radii ?v sim_with_points
     = Returns () (sim_with_points\<lparr>vort :=
         [CPoints (no_points\<lparr>elem_n := 1,
                               elem_r := [get_vdelta cmath_real sim_with_points]\<rparr>)]\<rparr>)"
    by (simp add: an sim_with_points_fields)
  from a l b ne c show ?thesis
    by blast
qed

lemma Points_ctor_assert:
  "length invec mod 7 \<noteq> 0 \<Longrightarrow> Points_ctor invec e m = Fatal AssertionFailure"
  by (simp add: Points_ctor_def)

lemma add_particles_assert:
  assumes "v \<noteq> []" and "length v mod 4 \<noteq> 0"
  shows "add_particles F A v sim = Fatal AssertionFailure"
  using assms by (simp add: add_particles_def)

lemma add_fldpts_assert:
  assumes "v \<noteq> []" and "length v mod Dimensions \<noteq> 0"
  shows "add_fldpts A v moves sim = Fatal AssertionFailure"
  using assms by (simp add: add_fldpts_def)

lemma Points_ctor_active_out_of_range:
  assumes "length invec mod 28 = 0" and "invec \<noteq> []" and "e \<noteq> inert"
  shows "Points_ctor invec e m = Fatal OutOfRangeRead"
proof -
  let ?n = "length invec div 4"
  from assms(1) have "28 dvd length invec"
    by (rule mod_0_imp_dvd)
  then obtain k where k: "length invec = 28 * k"
    by (rule dvdE)
  from assms(2) k have kpos: "0 < k"
    by (cases k) simp_all
  have nk: "?n = 7 * k"
    unfolding k by simp
  from k have m7: "length invec mod 7 = 0"
    by simp
  have n: "0 < ?n" "\<not> 7 * (?n - 1) + 2 + 3 < length invec"
    unfolding nk k using kpos by simp_all
  have "\<not> list_all (\<lambda>d. list_all (\<lambda>i. 7 * i + d + 3 < length invec) [0..<?n]) [0..<3]"
  proof
    assume "list_all (\<lambda>d. list_all (\<lambda>i. 7 * i + d + 3 < length invec) [0..<?n]) [0..<3]"
    then have all: "\<forall>d<3. \<forall>i<?n. 7 * i + d + 3 < length invec"
      by (simp add: list_all_iff)
    have "(2::nat) < 3" "?n - 1 < ?n"
      using n(1) by simp_all
    with all have "7 * (?n - 1) + 2 + 3 < length invec"
      by blast
    with n(2) show False by simp
  qed
  with m7 assms(3) show ?thesis
    by (simp add: Points_ctor_def Let_def)
qed

lemma add_particles_first_batch_fails:
  assumes "v \<noteq> []" and "length v mod 4 = 0" and "vort sim = []"
  shows "add_particles F A v sim = Fatal AssertionFailure \<or>
         add_particles F A v sim = Fatal OutOfRangeRead"
proof -
  let ?u = "set_vdelta_loop 3 (get_vdelta F sim) v"
  have len: "length ?u = length v"
    by (rule set_vdelta_loop_length)
  show ?thesis
  proof (cases "length v mod 7 = 0")
    case False
    then have "Points_ctor ?u active lagrangian = Fatal AssertionFailure"
      by (simp add: Points_ctor_assert len)
    then show ?thesis
      by (simp add: add_particles_new_collection [OF assms])
  next
    case True
    with assms(2) have "length ?u mod 28 = 0"
      unfolding len by presburger
    moreover from assms(1) len have "?u \<noteq> []"
      by auto
    ultimately have "Points_ctor ?u active lagrangian = Fatal OutOfRangeRead"
      by (intro Points_ctor_active_out_of_range) simp_all
    then show ?thesis
      by (simp add: add_particles_new_collection [OF assms])
  qed
qed

text \<open>
  C8, at the failing input. A batch of one particle (four numbers) handed to
  \<^verbatim>\<open>add_particles\<close> of a simulation that has no collection yet passes the stride check
  of \<^verbatim>\<open>add_particles\<close> and fails the assertion of the \<^verbatim>\<open>Points\<close> constructor, which
  asks for a multiple of seven. A batch of one field point (two numbers) handed to
  \<^verbatim>\<open>add_fldpts\<close> fails the same assertion.
\<close>

theorem C8_points_constructor_assertion:
  "length [0, 0, 1, 1 / 10 :: real] mod 4 = 0 \<and> vort fresh_sim = [] \<and>
   add_particles cmath_real add_new_quiet [0, 0, 1, 1 / 10] fresh_sim = Fatal AssertionFailure \<and>
   length [0, 0 :: real] mod Dimensions = 0 \<and> fldpt fresh_sim = [] \<and>
   add_fldpts add_new_quiet [0, 0] True fresh_sim = Fatal AssertionFailure"
proof -
  let ?v = "[0, 0, 1, 1 / 10 :: real]"
  have v: "?v \<noteq> []" "length ?v mod 4 = 0"
    by simp_all
  have e: "vort fresh_sim = []" "fldpt fresh_sim = []"
    by (simp_all add: fresh_sim_fields)
  have "length (set_vdelta_loop 3 (get_vdelta cmath_real fresh_sim) ?v) mod 7 \<noteq> 0"
    by (simp add: set_vdelta_loop_length)
  then have "Points_ctor (set_vdelta_loop 3 (get_vdelta cmath_real fresh_sim) ?v)
               active lagrangian = Fatal AssertionFailure"
    by (rule Points_ctor_assert)
  then have a: "add_particles cmath_real add_new_quiet ?v fresh_sim = Fatal AssertionFailure"
    by (simp add: add_particles_new_collection [OF v e(1)])
  have "Points_ctor [0, 0 :: real] inert lagrangian = Fatal AssertionFailure"
    by (rule Points_ctor_assert) simp
  then have b: "add_fldpts add_new_quiet [0, 0] True fresh_sim = Fatal AssertionFailure"
    by (simp add: add_fldpts_def Dimensions_def e)
  have "length [0, 0 :: real] mod Dimensions = 0"
    by (simp add: Dimensions_def)
  with v e a b show ?thesis
    by blast
qed

section \<open>The body list: proofs\<close>

lemma find_name_loop_returns:
  assumes "list_all (\<lambda>bp. deref h bp \<noteq> None) bps"
  shows "\<exists>out'. find_name_loop nm h bps out = Returns out' () \<and> set out \<subseteq> set out' \<and>
           ((\<exists>bp\<in>set bps. \<exists>b. deref h bp = Some b \<and> get_name b = nm) \<longrightarrow>
              FoundBodyMatchingName nm \<in> set out')"
  using assms
proof (induction bps arbitrary: out)
  case Nil
  show ?case by simp
next
  case (Cons bp bps)
  from Cons.prems obtain b where b: "deref h bp = Some b"
    by auto
  from Cons.prems have rest: "list_all (\<lambda>bp. deref h bp \<noteq> None) bps"
    by simp
  let ?out1 = "if get_name b = nm then out @ [FoundBodyMatchingName nm] else out"
  from Cons.IH [OF rest, of ?out1]
  obtain out' where o: "find_name_loop nm h bps ?out1 = Returns out' ()"
    "set ?out1 \<subseteq> set out'"
    "(\<exists>bp\<in>set bps. \<exists>b. deref h bp = Some b \<and> get_name b = nm) \<longrightarrow>
       FoundBodyMatchingName nm \<in> set out'"
    by blast
  have unf: "find_name_loop nm h (bp # bps) out = Returns out' ()"
    using b o(1) by simp
  have sub: "set out \<subseteq> set out'"
    using o(2) by (auto split: if_splits)
  have found: "FoundBodyMatchingName nm \<in> set out'"
    if "\<exists>q\<in>set (bp # bps). \<exists>c. deref h q = Some c \<and> get_name c = nm"
  proof (cases "get_name b = nm")
    case True
    then have "FoundBodyMatchingName nm \<in> set ?out1" by simp
    with o(2) show ?thesis by blast
  next
    case False
    with that b have "\<exists>q\<in>set bps. \<exists>c. deref h q = Some c \<and> get_name c = nm"
      by auto
    with o(3) show ?thesis by blast
  qed
  from unf sub found show ?case
    by blast
qed

lemma valid_pointer_below:
  assumes "list_all (\<lambda>bp. deref h bp \<noteq> None) bps"
  shows "Some (length h) \<notin> set bps"
proof
  assume "Some (length h) \<in> set bps"
  with assms have "deref h (Some (length h)) \<noteq> None"
    by (simp add: list_all_iff)
  then show False
    by (simp add: deref_def)
qed

lemma ground_body:
  "get_name (set_name ''ground'' (Body_default :: ('r::zero) Body)) = ''ground''"
  "pos (set_name ''ground'' (Body_default :: ('r::zero) Body)) = (0, 0)"
  "vel (set_name ''ground'' (Body_default :: ('r::zero) Body)) = (0, 0)"
  by (simp_all add: get_name_def set_name_def Body_default_def Body_ctor_def)

text \<open>
  C9. Whatever the name asked for, and whether or not a body of that name is in the
  list (every pointer of the list pointing to a body), \<^verbatim>\<open>get_pointer_to_body\<close> makes
  a new body named "ground", at rest at the origin, appends the pointer to it to the
  body list and returns that pointer; the pointer is none of those already in the list,
  and the list is one longer. When a body of that name is in the list the search loop
  prints that it found one, and the new body is made all the same.
\<close>

theorem C9_get_pointer_to_body_always_creates_ground:
  fixes sim :: "('r::zero, 'b, 'c) Simulation"
  assumes "list_all (\<lambda>bp. deref (body_store sim) bp \<noteq> None) (bodies sim)"
  shows "\<exists>out.
           get_pointer_to_body nm sim =
             Returns (Some (length (body_store sim)), out)
               (sim\<lparr>body_store := body_store sim @ [set_name ''ground'' Body_default],
                     bodies := bodies sim @ [Some (length (body_store sim))]\<rparr>) \<and>
           ((\<exists>bp\<in>set (bodies sim). \<exists>b. deref (body_store sim) bp = Some b \<and> get_name b = nm)
              \<longrightarrow> FoundBodyMatchingName nm \<in> set out) \<and>
           Some (length (body_store sim)) \<notin> set (bodies sim) \<and>
           length (bodies sim @ [Some (length (body_store sim))]) = length (bodies sim) + 1 \<and>
           get_name (set_name ''ground'' (Body_default :: 'r Body)) = ''ground'' \<and>
           pos (set_name ''ground'' (Body_default :: 'r Body)) = (0, 0) \<and>
           vel (set_name ''ground'' (Body_default :: 'r Body)) = (0, 0)"
proof -
  let ?a = "length (body_store sim)"
  let ?g = "set_name ''ground'' (Body_default :: 'r Body)"
  from find_name_loop_returns [OF assms, of nm "[]"]
  obtain out0 where o: "find_name_loop nm (body_store sim) (bodies sim) [] = Returns out0 ()"
    "(\<exists>bp\<in>set (bodies sim). \<exists>b. deref (body_store sim) bp = Some b \<and> get_name b = nm)
       \<longrightarrow> FoundBodyMatchingName nm \<in> set out0"
    by blast
  let ?sim2 = "sim\<lparr>body_store := body_store sim @ [?g]\<rparr>"
  have st: "(body_store sim @ [Body_default])[?a := set_name ''ground''
              ((body_store sim @ [Body_default]) ! ?a)] = body_store sim @ [?g]"
    by simp
  have ab: "add_body (Some ?a) ?sim2 =
              Returns [AddedNewBody ''ground'' (Suc (length (bodies sim)))]
                (?sim2\<lparr>bodies := bodies sim @ [Some ?a]\<rparr>)"
    by (simp add: add_body_def deref_def Let_def ground_body)
  let ?out = "out0 @ [NoBodyMatchingCreatingGround nm] @
              [AddedNewBody ''ground'' (Suc (length (bodies sim)))]"
  have "get_pointer_to_body nm sim =
          Returns (Some ?a, ?out) (?sim2\<lparr>bodies := bodies sim @ [Some ?a]\<rparr>)"
    unfolding get_pointer_to_body_def Let_def o(1) make_shared_Body_def
    by (simp add: st ab)
  moreover have "FoundBodyMatchingName nm \<in> set ?out"
    if "\<exists>bp\<in>set (bodies sim). \<exists>b. deref (body_store sim) bp = Some b \<and> get_name b = nm"
    using o(2) that by simp
  moreover note valid_pointer_below [OF assms] ground_body [where ?'r = 'r]
  ultimately show ?thesis
    by (intro exI [of _ ?out]) simp
qed

lemma sim_with_wing_fields:
  "bodies sim_with_wing = [Some 0]" "body_store sim_with_wing = [set_name ''wing'' Body_default]"
  by (simp_all add: sim_with_wing_def)

theorem C9_get_pointer_to_body_always_creates_ground_witness:
  "list_all (\<lambda>bp. deref (body_store sim_with_wing) bp \<noteq> None) (bodies sim_with_wing) \<and>
   (\<exists>b. deref (body_store sim_with_wing) (Some 0) = Some b \<and> get_name b = ''wing'') \<and>
   (\<exists>out. get_pointer_to_body ''wing'' sim_with_wing =
            Returns (Some 1, out)
              (sim_with_wing\<lparr>body_store := [set_name ''wing'' Body_default,
                                              set_name ''ground'' Body_default],
                             bodies := [Some 0, Some 1]\<rparr>) \<and>
          FoundBodyMatchingName ''wing'' \<in> set out)"
proof -
  have v: "list_all (\<lambda>bp. deref (body_store sim_with_wing) bp \<noteq> None) (bodies sim_with_wing)"
    by (simp add: sim_with_wing_fields deref_def)
  have w: "\<exists>b. deref (body_store sim_with_wing) (Some 0) = Some b \<and> get_name b = ''wing''"
    by (simp add: sim_with_wing_fields deref_def get_name_def set_name_def)
  then have m: "\<exists>bp\<in>set (bodies sim_with_wing).
                  \<exists>b. deref (body_store sim_with_wing) bp = Some b \<and> get_name b = ''wing''"
    by (simp add: sim_with_wing_fields(1))
  from C9_get_pointer_to_body_always_creates_ground [OF v, of "''wing''"]
  obtain out where o:
    "get_pointer_to_body ''wing'' sim_with_wing =
       Returns (Some (length (body_store sim_with_wing)), out)
         (sim_with_wing\<lparr>body_store := body_store sim_with_wing @ [set_name ''ground'' Body_default],
                        bodies := bodies sim_with_wing @ [Some (length (body_store sim_with_wing))]\<rparr>)"
    "(\<exists>bp\<in>set (bodies sim_with_wing).
        \<exists>b. deref (body_store sim_with_wing) bp = Some b \<and> get_name b = ''wing'')
       \<longrightarrow> FoundBodyMatchingName ''wing'' \<in> set out"
    by blast
  from o(2) m have f: "FoundBodyMatchingName ''wing'' \<in> set out"
    by blast
  from o(1) have "get_pointer_to_body ''wing'' sim_with_wing =
            Returns (Some 1, out)
              (sim_with_wing\<lparr>body_store := [set_name ''wing'' Body_default,
                                              set_name ''ground'' Body_default],
                             bodies := [Some 0, Some 1]\<rparr>)"
    by (simp add: sim_with_wing_fields)
  with v w f show ?thesis
    by blast
qed

end
